theory Spec2Isabelle
  imports Complex_Main
begin

section \<open>Python values used by parse_polygons_to_csv.py\<close>

text \<open>
  A Python \<open>str\<close> is modelled as a \<open>string\<close>: each \<open>char\<close> stands for the code point
  of the same number (U+0000 to U+00FF); code points above U+00FF are outside the model.
  The character classes below are the ones \<open>str.isspace\<close>, \<open>str.lower\<close> and the
  \<open>re\<close> module use on that range.
\<close>

definition whitespace_chars :: string where
  "whitespace_chars =
     [CHR 0x09, CHR 0x0A, CHR 0x0B, CHR 0x0C, CHR 0x0D,
      CHR 0x1C, CHR 0x1D, CHR 0x1E, CHR 0x1F, CHR 0x20, CHR 0x85, CHR 0xA0]"

definition digit_chars :: string where
  "digit_chars = ''0123456789''"

definition ascii_lowercase :: string where
  "ascii_lowercase = ''abcdefghijklmnopqrstuvwxyz''"

definition ascii_uppercase :: string where
  "ascii_uppercase = ''ABCDEFGHIJKLMNOPQRSTUVWXYZ''"

definition latin1_uppercase :: string where
  "latin1_uppercase =
     [CHR 0xC0, CHR 0xC1, CHR 0xC2, CHR 0xC3, CHR 0xC4, CHR 0xC5, CHR 0xC6, CHR 0xC7,
      CHR 0xC8, CHR 0xC9, CHR 0xCA, CHR 0xCB, CHR 0xCC, CHR 0xCD, CHR 0xCE, CHR 0xCF,
      CHR 0xD0, CHR 0xD1, CHR 0xD2, CHR 0xD3, CHR 0xD4, CHR 0xD5, CHR 0xD6,
      CHR 0xD8, CHR 0xD9, CHR 0xDA, CHR 0xDB, CHR 0xDC, CHR 0xDD, CHR 0xDE]"

definition latin1_lowercase :: string where
  "latin1_lowercase =
     [CHR 0xE0, CHR 0xE1, CHR 0xE2, CHR 0xE3, CHR 0xE4, CHR 0xE5, CHR 0xE6, CHR 0xE7,
      CHR 0xE8, CHR 0xE9, CHR 0xEA, CHR 0xEB, CHR 0xEC, CHR 0xED, CHR 0xEE, CHR 0xEF,
      CHR 0xF0, CHR 0xF1, CHR 0xF2, CHR 0xF3, CHR 0xF4, CHR 0xF5, CHR 0xF6,
      CHR 0xF8, CHR 0xF9, CHR 0xFA, CHR 0xFB, CHR 0xFC, CHR 0xFD, CHR 0xFE]"

definition py_isspace :: "char \<Rightarrow> bool" where
  "py_isspace c = (c \<in> set whitespace_chars)"

definition lower_char :: "char \<Rightarrow> char" where
  "lower_char c =
     (case map_of (zip (ascii_uppercase @ latin1_uppercase)
                       (ascii_lowercase @ latin1_lowercase)) c of
        None \<Rightarrow> c
      | Some l \<Rightarrow> l)"

text \<open>\<open>s.lower()\<close>\<close>

definition lower :: "string \<Rightarrow> string" where
  "lower s = map lower_char s"

text \<open>\<open>s.strip()\<close>: whitespace removed at both ends.\<close>

definition strip :: "string \<Rightarrow> string" where
  "strip s = rev (dropWhile py_isspace (rev (dropWhile py_isspace s)))"

text \<open>
  \<open>s.split()\<close>: the maximal runs of non-whitespace characters, in order.
  \<open>split_ws_acc cur s\<close> carries the token read so far, reversed.
\<close>

fun split_ws_acc :: "string \<Rightarrow> string \<Rightarrow> string list" where
  "split_ws_acc cur [] = (if cur = [] then [] else [rev cur])"
| "split_ws_acc cur (c # cs) =
     (if py_isspace c
      then (if cur = [] then split_ws_acc [] cs else rev cur # split_ws_acc [] cs)
      else split_ws_acc (c # cur) cs)"

definition split_ws :: "string \<Rightarrow> string list" where
  "split_ws s = split_ws_acc [] s"

text \<open>
  \<open>s.split(sep)\<close> for a one-character separator: every occurrence splits, empty
  pieces are kept, and the result is never empty.
\<close>

fun split_on :: "char \<Rightarrow> string \<Rightarrow> string list" where
  "split_on sep [] = [[]]"
| "split_on sep (c # cs) =
     (if c = sep then [] # split_on sep cs
      else (case split_on sep cs of
              [] \<Rightarrow> [[c]]
            | p # ps \<Rightarrow> (c # p) # ps))"

text \<open>The exceptions the script can raise on its own data.\<close>

datatype error = ValueError | AttributeError | TypeError

text \<open>
  Python's \<open>float\<close> and the two geometry libraries are not part of the repository.
  The script's functions take them as a parameter \<open>R\<close> of type \<open>'f runtime\<close>, where
  \<open>'f\<close> is the type of float values:
  \<^item> \<open>float_of_str s\<close> is \<open>float(s)\<close>, \<open>None\<close> when it raises \<open>ValueError\<close>;
  \<^item> \<open>float_const m e\<close> is the float denoted by the numeric literal \<open>m / 10^e\<close>
    (\<open>640\<close> is \<open>float_const 640 0\<close>, \<open>2.47105\<close> is \<open>float_const 247105 5\<close>);
  \<^item> \<open>fmul\<close> and \<open>fdiv\<close> are \<open>*\<close> and \<open>/\<close> on floats (the script divides by
    non-zero literals only);
  \<^item> \<open>fsum xs\<close> is the builtin \<open>sum\<close> on the floats \<open>xs\<close>, from the start value \<open>0\<close>;
  \<^item> \<open>format_2f x\<close> is the text of \<open>f"{x:.2f}"\<close>;
  \<^item> \<open>polygon_area_m2 exterior interiors\<close> is the three statements
    \<open>poly = Polygon(exterior, interiors)\<close>,
    \<open>poly_m = transform(_transformer.transform, poly)\<close>, \<open>area_m2 = poly_m.area\<close>
    (shapely and pyproj), with \<open>Inl\<close> for an exception raised there.
\<close>

record 'f runtime =
  float_of_str :: "string \<Rightarrow> 'f option"
  float_const :: "int \<Rightarrow> nat \<Rightarrow> 'f"
  fsum :: "'f list \<Rightarrow> 'f"
  fmul :: "'f \<Rightarrow> 'f \<Rightarrow> 'f"
  fdiv :: "'f \<Rightarrow> 'f \<Rightarrow> 'f"
  format_2f :: "'f \<Rightarrow> string"
  polygon_area_m2 :: "('f \<times> 'f) list \<Rightarrow> ('f \<times> 'f) list list \<Rightarrow> error + 'f"

section \<open>parse_coordinates\<close>

type_synonym 'f point = "'f \<times> 'f"

text \<open>
  The loop of \<open>parse_coordinates\<close> over the whitespace-separated parts. A part with at
  least two comma-separated pieces gives the point \<open>(float(pieces[0]), float(pieces[1]))\<close>,
  and a \<open>ValueError\<close> of \<open>float\<close> leaves the function; other parts are passed over.
\<close>

fun parse_parts :: "'f runtime \<Rightarrow> string list \<Rightarrow> error + 'f point list" where
  "parse_parts R [] = Inr []"
| "parse_parts R (part # parts) =
     (let pieces = split_on CHR '','' part in
      if 2 \<le> length pieces then
        (case float_of_str R (pieces ! 0) of
           None \<Rightarrow> Inl ValueError
         | Some lon \<Rightarrow>
             (case float_of_str R (pieces ! 1) of
                None \<Rightarrow> Inl ValueError
              | Some lat \<Rightarrow>
                  (case parse_parts R parts of
                     Inl e \<Rightarrow> Inl e
                   | Inr coords \<Rightarrow> Inr ((lon, lat) # coords))))
      else parse_parts R parts)"

text \<open>
  The argument is the \<open>text\<close> attribute of an XML element, which is \<open>None\<close> for an
  element without text: \<open>coord_text.strip()\<close> then raises \<open>AttributeError\<close>.
\<close>

definition parse_coordinates :: "'f runtime \<Rightarrow> string option \<Rightarrow> error + 'f point list" where
  "parse_coordinates R coord_text =
     (case coord_text of
        None \<Rightarrow> Inl AttributeError
      | Some t \<Rightarrow> parse_parts R (split_ws (strip t)))"

section \<open>The document\<close>

text \<open>
  The script reads the parsed document through a fixed set of ElementTree queries.
  An \<open>element\<close> is what a query finds; only its \<open>text\<close> is read, here
  \<open>text_attr\<close>, which is \<open>None\<close> for an element without text. A \<open>polygon_el\<close>
  holds the answers of the two queries of \<open>extract_polygon_coords\<close> on a Polygon
  element, and a \<open>placemark\<close> the answers of the three queries of \<open>main\<close> on a
  Placemark element (\<open>find\<close> gives \<open>None\<close> or the first match, \<open>findall\<close> all
  matches in document order).
\<close>

datatype element = Element (text_attr: "string option")

record polygon_el =
  outer_coordinates :: "element option"
  inner_coordinates :: "element list"

record placemark =
  polygon :: "polygon_el option"
  name_el :: "element option"
  desc_el :: "element option"

section \<open>extract_polygon_coords\<close>

text \<open>
  The list comprehension over the inner rings: rings whose text is \<open>None\<close> or empty
  are left out, the others are parsed in order.
\<close>

fun parse_inner_rings :: "'f runtime \<Rightarrow> element list \<Rightarrow> error + 'f point list list" where
  "parse_inner_rings R [] = Inr []"
| "parse_inner_rings R (inner # rest) =
     (if text_attr inner = None \<or> text_attr inner = Some [] then parse_inner_rings R rest
      else
        (case parse_coordinates R (text_attr inner) of
           Inl e \<Rightarrow> Inl e
         | Inr ring \<Rightarrow>
             (case parse_inner_rings R rest of
                Inl e \<Rightarrow> Inl e
              | Inr rings \<Rightarrow> Inr (ring # rings))))"

definition extract_polygon_coords ::
  "'f runtime \<Rightarrow> polygon_el \<Rightarrow> error + ('f point list option \<times> 'f point list list)" where
  "extract_polygon_coords R polygon_el =
     (case outer_coordinates polygon_el of
        None \<Rightarrow> Inr (None, [])
      | Some outer_ring \<Rightarrow>
          (case parse_coordinates R (text_attr outer_ring) of
             Inl e \<Rightarrow> Inl e
           | Inr exterior \<Rightarrow>
               (case parse_inner_rings R (inner_coordinates polygon_el) of
                  Inl e \<Rightarrow> Inl e
                | Inr interiors \<Rightarrow> Inr (Some exterior, interiors))))"

section \<open>parse_area_from_description\<close>

text \<open>
  The regular expression of \<open>parse_area_from_description\<close> is a sequence of items of
  three shapes: one character of a class, \<open>class*\<close>, and a capturing group
  \<open>(class+)\<close>. \<open>match_here\<close> is the backtracking match of \<open>re\<close> at a fixed start:
  a repetition first takes the longest run of its class and gives characters back one
  at a time while the rest of the pattern fails. The result lists the captured groups.
\<close>

datatype re_item = Chr "char \<Rightarrow> bool" | Star "char \<Rightarrow> bool" | GroupPlus "char \<Rightarrow> bool"

text \<open>\<open>first_match_down f lo k\<close> tries the counts \<open>lo + k\<close>, ..., \<open>lo\<close> in this order.\<close>

primrec first_match_down :: "(nat \<Rightarrow> 'a option) \<Rightarrow> nat \<Rightarrow> nat \<Rightarrow> 'a option" where
  "first_match_down f lo 0 = f lo"
| "first_match_down f lo (Suc k) =
     (case f (lo + Suc k) of
        Some r \<Rightarrow> Some r
      | None \<Rightarrow> first_match_down f lo k)"

fun match_here :: "re_item list \<Rightarrow> string \<Rightarrow> string list option" where
  "match_here [] s = Some []"
| "match_here (Chr p # items) s =
     (case s of
        [] \<Rightarrow> None
      | c # cs \<Rightarrow> if p c then match_here items cs else None)"
| "match_here (Star p # items) s =
     first_match_down (\<lambda>k. match_here items (drop k s)) 0 (length (takeWhile p s))"
| "match_here (GroupPlus p # items) s =
     (let n = length (takeWhile p s) in
      if n = 0 then None
      else first_match_down
             (\<lambda>k. map_option (\<lambda>groups. take k s # groups) (match_here items (drop k s)))
             1 (n - 1))"

text \<open>\<open>re.search\<close>: the match at the leftmost start position that has one.\<close>

fun re_search :: "re_item list \<Rightarrow> string \<Rightarrow> string list option" where
  "re_search items [] = match_here items []"
| "re_search items (c # cs) =
     (case match_here items (c # cs) of
        Some groups \<Rightarrow> Some groups
      | None \<Rightarrow> re_search items cs)"

text \<open>
  The classes of \<open>Area:\s*([\d\.]+)\s*([a-zA-Z\s]+)\<close> under \<open>re.IGNORECASE\<close>: a
  letter of the pattern matches the characters that lower-case to it.
\<close>

definition ignorecase :: "char \<Rightarrow> char \<Rightarrow> bool" where
  "ignorecase a c = (lower_char c = a)"

definition number_char :: "char \<Rightarrow> bool" where
  "number_char c = (c \<in> set digit_chars \<or> c = CHR ''.'')"

definition unit_char :: "char \<Rightarrow> bool" where
  "unit_char c = (c \<in> set ascii_lowercase \<or> c \<in> set ascii_uppercase \<or> py_isspace c)"

definition area_pattern :: "re_item list" where
  "area_pattern =
     [Chr (ignorecase CHR ''a''), Chr (ignorecase CHR ''r''), Chr (ignorecase CHR ''e''),
      Chr (ignorecase CHR ''a''), Chr (ignorecase CHR '':''),
      Star py_isspace, GroupPlus number_char, Star py_isspace, GroupPlus unit_char]"

text \<open>
  The argument is \<open>None\<close> when the description element has no text: \<open>re.search\<close>
  then raises \<open>TypeError\<close>. \<open>float(match.group(1))\<close> raises \<open>ValueError\<close> on a
  run of digits and dots that is not a number.
\<close>

definition parse_area_from_description ::
  "'f runtime \<Rightarrow> string option \<Rightarrow> error + ('f \<times> string) option" where
  "parse_area_from_description R description =
     (case description of
        None \<Rightarrow> Inl TypeError
      | Some d \<Rightarrow>
          (case re_search area_pattern d of
             None \<Rightarrow> Inr None
           | Some groups \<Rightarrow>
               (case float_of_str R (groups ! 0) of
                  None \<Rightarrow> Inl ValueError
                | Some v \<Rightarrow> Inr (Some (v, lower (groups ! 1))))))"

section \<open>convert_to_acres\<close>

definition convert_to_acres :: "'f runtime \<Rightarrow> 'f \<Rightarrow> string \<Rightarrow> error + 'f" where
  "convert_to_acres R v unit0 =
     (let u = lower unit0 in
      if u = ''acres'' then Inr v
      else if u \<in> set [''sq mi'', ''square miles''] then Inr (fmul R v (float_const R 640 0))
      else if u = ''hectares'' then Inr (fmul R v (float_const R 247105 5))
      else if u \<in> set [''sq km'', ''square kilometers'']
        then Inr (fmul R v (float_const R 247105 3))
      else if u \<in> set [''sq ft'', ''square feet'', ''sqft'']
        then Inr (fdiv R v (float_const R 43560 0))
      else if u \<in> set [''sq m'', ''square meters'', ''square metres'', ''sq meter'', ''sq metre'']
        then Inr (fdiv R v (float_const R 404686 2))
      else Inl ValueError)"

text \<open>
  The conversion table as the specification prints it (section 4.4), one entry per
  alias: the alias in lower case and its formula to acres.
\<close>

definition spec_conversion_table :: "'f runtime \<Rightarrow> (string \<times> ('f \<Rightarrow> 'f)) list" where
  "spec_conversion_table R =
     [(''acres'', \<lambda>v. v),
      (''sq mi'', \<lambda>v. fmul R v (float_const R 640 0)),
      (''square miles'', \<lambda>v. fmul R v (float_const R 640 0)),
      (''hectares'', \<lambda>v. fmul R v (float_const R 247105 5)),
      (''sq km'', \<lambda>v. fmul R v (float_const R 247105 3)),
      (''square kilometers'', \<lambda>v. fmul R v (float_const R 247105 3)),
      (''sq ft'', \<lambda>v. fdiv R v (float_const R 43560 0)),
      (''square feet'', \<lambda>v. fdiv R v (float_const R 43560 0)),
      (''sqft'', \<lambda>v. fdiv R v (float_const R 43560 0)),
      (''sq m'', \<lambda>v. fdiv R v (float_const R 404686 2)),
      (''square meters'', \<lambda>v. fdiv R v (float_const R 404686 2)),
      (''square metres'', \<lambda>v. fdiv R v (float_const R 404686 2)),
      (''sq meter'', \<lambda>v. fdiv R v (float_const R 404686 2)),
      (''sq metre'', \<lambda>v. fdiv R v (float_const R 404686 2))]"

section \<open>main\<close>

text \<open>
  The model of \<open>main\<close> starts at the loop over \<open>root.findall('.//kml:Placemark')\<close>:
  reading the arguments, the file and the XML is outside it. The state of a run is
  the list \<open>results\<close>, the messages passed to \<open>logging.warning\<close>, and the arguments
  of every call of the geometry libraries (\<open>area_calls\<close>), each in order. An exception
  that leaves \<open>main\<close> is the value \<open>Inl\<close>.
\<close>

record 'f run_state =
  results :: "(string \<times> 'f) list"
  warnings :: "string list"
  area_calls :: "('f point list \<times> 'f point list list) list"

definition initial_state :: "'f run_state" where
  "initial_state = \<lparr>results = [], warnings = [], area_calls = []\<rparr>"

definition quoted :: "string \<Rightarrow> string" where
  "quoted s = [CHR 0x27] @ s @ [CHR 0x27]"

text \<open>\<open>name = name_el.text.strip() if name_el is not None else 'Unnamed'\<close>\<close>

definition placemark_name :: "element option \<Rightarrow> error + string" where
  "placemark_name el =
     (case el of
        None \<Rightarrow> Inr ''Unnamed''
      | Some e \<Rightarrow>
          (case text_attr e of
             None \<Rightarrow> Inl AttributeError
           | Some t \<Rightarrow> Inr (strip t)))"

text \<open>\<open>description = desc_el.text if desc_el is not None else ''\<close>\<close>

definition placemark_description :: "element option \<Rightarrow> string option" where
  "placemark_description el =
     (case el of
        None \<Rightarrow> Some []
      | Some e \<Rightarrow> text_attr e)"

text \<open>
  The geometric area, written twice in \<open>main\<close> (in the handler of the unknown unit and
  in the branch without annotation): the call of the geometry libraries, then
  \<open>area_acres = area_m2 / 4046.86\<close>.
\<close>

definition calculate_area ::
  "'f runtime \<Rightarrow> 'f point list \<Rightarrow> 'f point list list \<Rightarrow> 'f run_state \<Rightarrow>
   error + ('f \<times> 'f run_state)" where
  "calculate_area R exterior interiors st =
     (case polygon_area_m2 R exterior interiors of
        Inl e \<Rightarrow> Inl e
      | Inr area_m2 \<Rightarrow>
          Inr (fdiv R area_m2 (float_const R 404686 2),
               st\<lparr>area_calls := area_calls st @ [(exterior, interiors)]\<rparr>))"

text \<open>
  "Determine area in acres": \<open>if area_info\<close> holds for every tuple, and
  \<open>except ValueError\<close> handles the exception of \<open>convert_to_acres\<close> only.
\<close>

definition determine_area ::
  "'f runtime \<Rightarrow> string \<Rightarrow> ('f \<times> string) option \<Rightarrow> 'f point list \<Rightarrow> 'f point list list \<Rightarrow>
   'f run_state \<Rightarrow> error + ('f \<times> 'f run_state)" where
  "determine_area R name area_info exterior interiors st =
     (case area_info of
        Some (v, u) \<Rightarrow>
          (case convert_to_acres R v u of
             Inr area_acres \<Rightarrow> Inr (area_acres, st)
           | Inl e \<Rightarrow>
               if e = ValueError then
                 calculate_area R exterior interiors
                   (st\<lparr>warnings := warnings st @
                      [''Unknown unit '' @ quoted u @ '' for polygon '' @ quoted name @
                       '', calculating area instead.'']\<rparr>)
               else Inl e)
      | None \<Rightarrow> calculate_area R exterior interiors st)"

text \<open>
  The body of the loop over the placemarks. \<open>if not exterior\<close> holds for \<open>None\<close> and
  for the empty list.
\<close>

definition process_placemark ::
  "'f runtime \<Rightarrow> placemark \<Rightarrow> 'f run_state \<Rightarrow> error + 'f run_state" where
  "process_placemark R pm st =
     (case polygon pm of
        None \<Rightarrow> Inr st
      | Some polygon_el \<Rightarrow>
          (case placemark_name (name_el pm) of
             Inl e \<Rightarrow> Inl e
           | Inr name \<Rightarrow>
               (case parse_area_from_description R (placemark_description (desc_el pm)) of
                  Inl e \<Rightarrow> Inl e
                | Inr area_info \<Rightarrow>
                    (case extract_polygon_coords R polygon_el of
                       Inl e \<Rightarrow> Inl e
                     | Inr (exterior, interiors) \<Rightarrow>
                         (let skipped =
                            st\<lparr>warnings := warnings st @
                              [''Polygon '' @ quoted name @ '' has no coordinates.'']\<rparr>
                          in
                          case exterior of
                            None \<Rightarrow> Inr skipped
                          | Some ring \<Rightarrow>
                              if ring = [] then Inr skipped
                              else
                                (case determine_area R name area_info ring interiors st of
                                   Inl e \<Rightarrow> Inl e
                                 | Inr (area_acres, st') \<Rightarrow>
                                     Inr (st'\<lparr>results :=
                                            results st' @ [(name, area_acres)]\<rparr>)))))))"

fun collect_results ::
  "'f runtime \<Rightarrow> placemark list \<Rightarrow> 'f run_state \<Rightarrow> error + 'f run_state" where
  "collect_results R [] st = Inr st"
| "collect_results R (pm # pms) st =
     (case process_placemark R pm st of
        Inl e \<Rightarrow> Inl e
      | Inr st' \<Rightarrow> collect_results R pms st')"

text \<open>The rows passed to \<open>writer.writerow\<close>, the loop with its flag \<open>first\<close>.\<close>

fun write_rows :: "'f runtime \<Rightarrow> 'f \<Rightarrow> bool \<Rightarrow> (string \<times> 'f) list \<Rightarrow> string list list" where
  "write_rows R total_acres first [] = []"
| "write_rows R total_acres first ((name, area) # rest) =
     [name, format_2f R area, if first then format_2f R total_acres else []]
       # write_rows R total_acres False rest"

definition report_rows :: "'f runtime \<Rightarrow> (string \<times> 'f) list \<Rightarrow> string list list" where
  "report_rows R res =
     (let total_acres = fsum R (map snd res) in
      [''Polygon Name'', ''Total Acreage'', ''Total''] # write_rows R total_acres True res)"

text \<open>
  How a run ends without an exception: \<open>NoPolygonsFound\<close> is the message
  "No polygons found in the KML file." and \<open>sys.exit(0)\<close>, with no file written;
  \<open>ReportWritten rows\<close> is the CSV file with these rows.
\<close>

datatype outcome = NoPolygonsFound | ReportWritten "string list list"

definition main :: "'f runtime \<Rightarrow> placemark list \<Rightarrow> error + (outcome \<times> 'f run_state)" where
  "main R placemarks =
     (case collect_results R placemarks initial_state of
        Inl e \<Rightarrow> Inl e
      | Inr st \<Rightarrow>
          if results st = [] then Inr (NoPolygonsFound, st)
          else Inr (ReportWritten (report_rows R (results st)), st))"

section \<open>An exact runtime for evaluation\<close>

text \<open>
  \<open>exact_runtime\<close> instantiates the parameter with exact arithmetic on the rationals,
  to evaluate the model on concrete documents. It reads plain decimal text only
  (an optional sign, digits, at most one point, at least one digit), formats by rounding
  half to even, and its geometry is the planar shoelace area of the exterior minus that
  of the interiors, in the units of the input and for rings of any length. The theorems
  below hold for every runtime.
\<close>

definition digit_value :: "char \<Rightarrow> int" where
  "digit_value c =
     (case map_of (zip digit_chars [0, 1, 2, 3, 4, 5, 6, 7, 8, 9]) c of
        None \<Rightarrow> 0
      | Some d \<Rightarrow> d)"

definition digits_value :: "string \<Rightarrow> int" where
  "digits_value s = foldl (\<lambda>a c. 10 * a + digit_value c) 0 s"

definition decimal_of_str :: "string \<Rightarrow> rat option" where
  "decimal_of_str s =
     (let body = (case s of
                    [] \<Rightarrow> []
                  | c # cs \<Rightarrow> if c = CHR ''-'' \<or> c = CHR ''+'' then cs else s);
          ip = takeWhile (\<lambda>c. c \<noteq> CHR ''.'') body;
          fp = drop 1 (dropWhile (\<lambda>c. c \<noteq> CHR ''.'') body)
      in
      if (ip = [] \<and> fp = []) \<or> \<not> list_all (\<lambda>c. c \<in> set digit_chars) (ip @ fp) then None
      else Some ((if take 1 s = ''-'' then - 1 else 1) *
                 (of_int (digits_value (ip @ fp)) / 10 ^ length fp)))"

definition digit_char :: "int \<Rightarrow> char" where
  "digit_char d = digit_chars ! nat d"

function show_int :: "int \<Rightarrow> string" where
  "show_int n =
     (if n < 10 then [digit_char n]
      else show_int (n div 10) @ [digit_char (n mod 10)])"
  by pat_completeness auto
termination
  by (relation "measure nat") auto

declare show_int.simps [simp del]

definition round_half_even :: "rat \<Rightarrow> int" where
  "round_half_even x =
     (let n = \<lfloor>x\<rfloor>; r = x - of_int n in
      if r < 1 / 2 then n
      else if 1 / 2 < r then n + 1
      else if even n then n else n + 1)"

definition format_2f_rat :: "rat \<Rightarrow> string" where
  "format_2f_rat x =
     (let n = round_half_even (\<bar>x\<bar> * 100) in
      (if x < 0 then ''-'' else []) @ show_int (n div 100) @ ''.'' @
      [digit_char (n mod 100 div 10), digit_char (n mod 10)])"

fun shoelace_sum :: "(rat \<times> rat) list \<Rightarrow> rat" where
  "shoelace_sum ((x1, y1) # (x2, y2) # ps) = (x1 * y2 - x2 * y1) + shoelace_sum ((x2, y2) # ps)"
| "shoelace_sum ps = 0"

definition ring_area :: "(rat \<times> rat) list \<Rightarrow> rat" where
  "ring_area ps = (case ps of [] \<Rightarrow> 0 | p # rest \<Rightarrow> \<bar>shoelace_sum (ps @ [p])\<bar> / 2)"

definition exact_runtime :: "rat runtime" where
  "exact_runtime =
     \<lparr>float_of_str = decimal_of_str,
      float_const = (\<lambda>m e. of_int m / 10 ^ e),
      fsum = sum_list,
      fmul = (\<lambda>a b. a * b),
      fdiv = (\<lambda>a b. a / b),
      format_2f = format_2f_rat,
      polygon_area_m2 = (\<lambda>exterior interiors.
         Inr (ring_area exterior - sum_list (map ring_area interiors)))\<rparr>"


section \<open>Example documents\<close>

definition unit_square :: polygon_el where
  "unit_square =
     \<lparr>outer_coordinates = Some (Element (Some ''0,0 0,1 1,1 1,0 0,0'')),
      inner_coordinates = []\<rparr>"

text \<open>A placemark with a polygon, a name element and a description element.\<close>

definition labelled :: "string \<Rightarrow> string \<Rightarrow> polygon_el \<Rightarrow> placemark" where
  "labelled name description polygon_el =
     \<lparr>polygon = Some polygon_el, name_el = Some (Element (Some name)),
      desc_el = Some (Element (Some description))\<rparr>"

text \<open>A placemark without polygon geometry (a point, say), with an empty name element.\<close>

definition point_placemark :: placemark where
  "point_placemark = \<lparr>polygon = None, name_el = Some (Element None), desc_el = None\<rparr>"

text \<open>The exterior ring of \<open>unit_square\<close>, parsed.\<close>

definition square_ring :: "rat point list" where
  "square_ring = [(0, 0), (0, 1), (1, 1), (1, 0), (0, 0)]"

text \<open>A polygon without interior rings whose exterior ring has the given coordinate text.\<close>

definition ring_of_text :: "string \<Rightarrow> polygon_el" where
  "ring_of_text coord_text =
     \<lparr>outer_coordinates = Some (Element (Some coord_text)), inner_coordinates = []\<rparr>"

section \<open>The pattern of parse_area_from_description, read two other ways\<close>

text \<open>
  A scan without backtracking, used to state what the regular expression selects at
  a fixed start: \<open>Area:\<close> in any case, whitespace, the longest run of digits and
  points, whitespace, and then the longest run of letters and whitespace; when no
  letter follows the whitespace after the number, the unit is the last character of
  that whitespace.
\<close>

definition area_match_at :: "string \<Rightarrow> (string \<times> string) option" where
  "area_match_at s =
     (if length s < 5 \<or> lower (take 5 s) \<noteq> ''area:'' then None
      else
        (let r1 = dropWhile py_isspace (drop 5 s);
             num = takeWhile number_char r1;
             r2 = dropWhile number_char r1;
             sp = takeWhile py_isspace r2;
             un = takeWhile unit_char (dropWhile py_isspace r2)
         in
         if num = [] then None
         else if un \<noteq> [] then Some (num, un)
         else if sp \<noteq> [] then Some (num, [last sp])
         else None))"

text \<open>The scan at the leftmost start that has a match.\<close>

fun first_area_match :: "string \<Rightarrow> (string \<times> string) option" where
  "first_area_match [] = None"
| "first_area_match (c # cs) =
     (case area_match_at (c # cs) of
        Some m \<Rightarrow> Some m
      | None \<Rightarrow> first_area_match cs)"

text \<open>
  The matches of a pattern as a relation: \<open>pattern_match items s groups rest\<close> holds
  when a prefix of \<open>s\<close> can be cut into one piece per item (one character of the
  class, any run of the class, a non-empty run of the class), leaving \<open>rest\<close>;
  \<open>groups\<close> lists the pieces of the capturing groups.
\<close>

inductive pattern_match :: "re_item list \<Rightarrow> string \<Rightarrow> string list \<Rightarrow> string \<Rightarrow> bool" where
  match_end: "pattern_match [] s [] s"
| match_chr: "p c \<Longrightarrow> pattern_match items s groups rest \<Longrightarrow>
     pattern_match (Chr p # items) (c # s) groups rest"
| match_star: "list_all p w \<Longrightarrow> pattern_match items s groups rest \<Longrightarrow>
     pattern_match (Star p # items) (w @ s) groups rest"
| match_group: "w \<noteq> [] \<Longrightarrow> list_all p w \<Longrightarrow> pattern_match items s groups rest \<Longrightarrow>
     pattern_match (GroupPlus p # items) (w @ s) (w # groups) rest"

text \<open>
  The unit words in the words of the specification (section 4.3): one or more
  alphabetic tokens, possibly separated by spaces.
\<close>

definition spec_unit_words :: "string \<Rightarrow> bool" where
  "spec_unit_words s =
     (split_ws s \<noteq> [] \<and>
      list_all (\<lambda>c. c \<in> set ascii_lowercase \<or> c \<in> set ascii_uppercase \<or> py_isspace c) s)"

section \<open>Placemarks that yield no record\<close>

text \<open>
  A placemark yields no record when it has no polygon, or when its name and its
  description are read without an exception, the coordinate texts of its polygon
  parse without an exception, and the polygon has no exterior point (the outer
  boundary is absent or its text parses to zero points).
\<close>

definition yields_no_record :: "'f runtime \<Rightarrow> placemark \<Rightarrow> bool" where
  "yields_no_record R pm =
     (case polygon pm of
        None \<Rightarrow> True
      | Some polygon_el \<Rightarrow>
          (case placemark_name (name_el pm) of
             Inl e \<Rightarrow> False
           | Inr name \<Rightarrow>
               (case parse_area_from_description R (placemark_description (desc_el pm)) of
                  Inl e \<Rightarrow> False
                | Inr area_info \<Rightarrow>
                    (case extract_polygon_coords R polygon_el of
                       Inl e \<Rightarrow> False
                     | Inr (exterior, interiors) \<Rightarrow> exterior = None \<or> exterior = Some []))))"

section \<open>Properties\<close>

subsection \<open>The unit table\<close>

text \<open>
  C2. For every value and every unit string, \<open>convert_to_acres\<close> returns the entry of
  the specification's table for the lower-cased unit applied to the value, and raises
  \<open>ValueError\<close> (the unrecognised unit) for every unit string whose lower-cased form
  is not an alias of the table.
\<close>

theorem convert_to_acres_table:
  "convert_to_acres R v u =
     (case map_of (spec_conversion_table R) (lower u) of
        None \<Rightarrow> Inl ValueError
      | Some f \<Rightarrow> Inr (f v))"
  by (simp add: convert_to_acres_def spec_conversion_table_def Let_def)

subsection \<open>The report\<close>

lemma write_rows_not_first:
  "write_rows R tot False res = map (\<lambda>(name, area). [name, format_2f R area, []]) res"
  by (induction res) auto

lemma report_rows_length: "length (report_rows R res) = Suc (length res)"
  by (cases res) (auto simp: report_rows_def write_rows_not_first Let_def)

text \<open>
  C7. For every non-empty sequence of results, the report is the header row
  \<open>["Polygon Name", "Total Acreage", "Total"]\<close> followed by one row per result in
  order: the name, the acres formatted to two decimals, and a third field that is
  empty except in the first data row, where it is the formatted total; the total is
  the sum of the acres values themselves, not of their formatted texts. A run whose
  loop collects these results writes exactly this report.
\<close>

theorem report_rows_layout:
  "report_rows R ((name0, area0) # rest) =
     [[''Polygon Name'', ''Total Acreage'', ''Total''],
      [name0, format_2f R area0, format_2f R (fsum R (area0 # map snd rest))]] @
     map (\<lambda>(name, area). [name, format_2f R area, []]) rest
   \<and> (\<forall>pms st.
         collect_results R pms initial_state = Inr st \<and> results st = (name0, area0) # rest \<longrightarrow>
         main R pms = Inr (ReportWritten (report_rows R ((name0, area0) # rest)), st))"
  by (simp add: report_rows_def write_rows_not_first main_def Let_def)

theorem report_rows_layout_witness:
  "main exact_runtime
     [labelled ''A'' ''Area: 10 acres.'' unit_square,
      labelled ''B'' ''Area: 20.25 acres.'' unit_square] =
   Inr (ReportWritten
          [[''Polygon Name'', ''Total Acreage'', ''Total''],
           [''A'', ''10.00'', ''30.25''],
           [''B'', ''20.25'', []]],
        \<lparr>results = [(''A'', 10), (''B'', 81 / 4)], warnings = [], area_calls = []\<rparr>)"
proof -
  let ?doc = "[labelled ''A'' ''Area: 10 acres.'' unit_square,
               labelled ''B'' ''Area: 20.25 acres.'' unit_square]"
  let ?st = "\<lparr>results = [(''A'', 10), (''B'', 81 / 4)], warnings = [],
              area_calls = []\<rparr> :: rat run_state"
  have c: "collect_results exact_runtime ?doc initial_state = Inr ?st"
    by code_simp
  have r: "results ?st = (''A'', 10) # [(''B'', 81 / 4)]"
    by simp
  have m: "main exact_runtime ?doc =
      Inr (ReportWritten (report_rows exact_runtime ((''A'', 10) # [(''B'', 81 / 4)])), ?st)"
    using report_rows_layout [THEN conjunct2, rule_format, OF conjI [OF c r]] .
  have rows: "report_rows exact_runtime ((''A'', 10) # [(''B'', 81 / 4)]) =
      [[''Polygon Name'', ''Total Acreage'', ''Total''],
       [''A'', ''10.00'', ''30.25''],
       [''B'', ''20.25'', []]]"
    by code_simp
  show ?thesis
    unfolding m rows ..
qed

subsection \<open>The empty result\<close>

lemma process_placemark_no_polygon:
  "polygon pm = None \<Longrightarrow> process_placemark R pm st = Inr st"
  by (simp add: process_placemark_def)

lemma collect_results_no_polygons:
  "list_all (\<lambda>pm. polygon pm = None) pms \<Longrightarrow> collect_results R pms st = Inr st"
  by (induction pms) (auto simp: process_placemark_no_polygon)

lemma process_placemark_no_record:
  assumes "yields_no_record R pm"
  shows "\<exists>st'. process_placemark R pm st = Inr st' \<and> results st' = results st \<and>
     area_calls st' = area_calls st \<and>
     length (warnings st') = length (warnings st) + (if polygon pm = None then 0 else 1)"
proof (cases "polygon pm")
  case None
  then show ?thesis
    by (simp add: process_placemark_def)
next
  case (Some pg)
  with assms obtain name area_info exterior interiors
    where "placemark_name (name_el pm) = Inr name"
      and "parse_area_from_description R (placemark_description (desc_el pm)) = Inr area_info"
      and "extract_polygon_coords R pg = Inr (exterior, interiors)"
      and "exterior = None \<or> exterior = Some []"
    by (auto simp: yields_no_record_def split: sum.splits)
  with Some show ?thesis
    by (auto simp: process_placemark_def Let_def)
qed

lemma collect_results_no_record:
  "list_all (yields_no_record R) pms \<Longrightarrow>
     \<exists>st'. collect_results R pms st = Inr st' \<and> results st' = results st \<and>
       area_calls st' = area_calls st \<and>
       length (warnings st') =
         length (warnings st) + length (filter (\<lambda>pm. polygon pm \<noteq> None) pms)"
proof (induction pms arbitrary: st)
  case Nil
  show ?case by simp
next
  case (Cons pm pms)
  then have "yields_no_record R pm" and rest: "list_all (yields_no_record R) pms"
    by simp_all
  from process_placemark_no_record [OF this(1), of st] obtain st1
    where 1: "process_placemark R pm st = Inr st1" "results st1 = results st"
      "area_calls st1 = area_calls st"
      "length (warnings st1) = length (warnings st) + (if polygon pm = None then 0 else 1)"
    by blast
  from Cons.IH [OF rest, of st1] obtain st2
    where 2: "collect_results R pms st1 = Inr st2" "results st2 = results st1"
      "area_calls st2 = area_calls st1"
      "length (warnings st2) =
         length (warnings st1) + length (filter (\<lambda>pm. polygon pm \<noteq> None) pms)"
    by blast
  from 1 2 show ?case
    by auto
qed

text \<open>
  C8, as amended. For every document in which every placemark yields no record (it
  has no polygon, or it is read without an exception and its polygon has no exterior
  point), the run ends as \<open>NoPolygonsFound\<close> (the message and exit status 0): no
  exception, no report, no result and no call of the geometry libraries, and one
  warning per placemark with a polygon. More generally a run whose loop ends with no
  result ends as \<open>NoPolygonsFound\<close>, and a report that is written never consists
  of the header row alone.
\<close>

theorem empty_result_set:
  "(list_all (yields_no_record R) pms \<longrightarrow>
      (\<exists>fin. main R pms = Inr (NoPolygonsFound, fin) \<and> results fin = [] \<and>
         area_calls fin = [] \<and>
         length (warnings fin) = length (filter (\<lambda>pm. polygon pm \<noteq> None) pms))) \<and>
   (collect_results R pms initial_state = Inr st \<and> results st = [] \<longrightarrow>
      main R pms = Inr (NoPolygonsFound, st)) \<and>
   (list_all (\<lambda>pm. polygon pm = None) pms \<longrightarrow>
      main R pms = Inr (NoPolygonsFound, initial_state)) \<and>
   (main R pms = Inr (ReportWritten rows, st) \<longrightarrow> 2 \<le> length rows)"
proof (intro conjI impI)
  assume "list_all (yields_no_record R) pms"
  from collect_results_no_record [OF this, of initial_state] obtain fin
    where "collect_results R pms initial_state = Inr fin" and "results fin = []"
      and "area_calls fin = []"
      and "length (warnings fin) = length (filter (\<lambda>pm. polygon pm \<noteq> None) pms)"
    by (auto simp: initial_state_def)
  then have "main R pms = Inr (NoPolygonsFound, fin) \<and> results fin = [] \<and>
         area_calls fin = [] \<and>
         length (warnings fin) = length (filter (\<lambda>pm. polygon pm \<noteq> None) pms)"
    by (simp add: main_def)
  then show "\<exists>fin. main R pms = Inr (NoPolygonsFound, fin) \<and> results fin = [] \<and>
         area_calls fin = [] \<and>
         length (warnings fin) = length (filter (\<lambda>pm. polygon pm \<noteq> None) pms)"
    by blast
next
  assume "collect_results R pms initial_state = Inr st \<and> results st = []"
  then show "main R pms = Inr (NoPolygonsFound, st)"
    by (simp add: main_def)
next
  assume "list_all (\<lambda>pm. polygon pm = None) pms"
  then have "collect_results R pms initial_state = Inr initial_state"
    by (rule collect_results_no_polygons)
  then show "main R pms = Inr (NoPolygonsFound, initial_state)"
    by (simp add: main_def initial_state_def)
next
  assume "main R pms = Inr (ReportWritten rows, st)"
  then have "rows = report_rows R (results st)" and "results st \<noteq> []"
    by (auto simp: main_def split: sum.splits if_splits)
  then show "2 \<le> length rows"
    by (cases "results st") (simp_all add: report_rows_length)
qed

text \<open>
  C8 as stated fails: the only polygon of this document has no exterior point, so
  the document has no valid polygon record, but its interior ring is parsed before
  the exterior ring is tested and the \<open>ValueError\<close> of the malformed token leaves
  the run.
\<close>

theorem unparsed_interior_counterexample:
  "parse_coordinates exact_runtime (Some ''7'') = Inr [] \<and>
   main exact_runtime
     [labelled ''P'' ''pasture''
        \<lparr>outer_coordinates = Some (Element (Some ''7'')),
         inner_coordinates = [Element (Some ''a,b'')]\<rparr>] = Inl ValueError"
  by code_simp

theorem empty_result_set_witness:
  "(\<exists>fin. main exact_runtime
             [point_placemark,
              labelled ''A'' ''pasture'' \<lparr>outer_coordinates = None, inner_coordinates = []\<rparr>,
              labelled ''B'' ''Area: 5 acres.'' (ring_of_text ''7'')] =
           Inr (NoPolygonsFound, fin) \<and> results fin = [] \<and> area_calls fin = [] \<and>
           length (warnings fin) =
             length (filter (\<lambda>pm. polygon pm \<noteq> None)
               [point_placemark,
                labelled ''A'' ''pasture'' \<lparr>outer_coordinates = None, inner_coordinates = []\<rparr>,
                labelled ''B'' ''Area: 5 acres.'' (ring_of_text ''7'')]))
   \<and> main exact_runtime [point_placemark, point_placemark] = Inr (NoPolygonsFound, initial_state)
   \<and> main exact_runtime
         [labelled ''A'' ''pasture'' \<lparr>outer_coordinates = None, inner_coordinates = []\<rparr>] =
       Inr (NoPolygonsFound,
            \<lparr>results = [],
             warnings = [''Polygon '' @ quoted ''A'' @ '' has no coordinates.''],
             area_calls = []\<rparr>)
   \<and> 2 \<le> length [[''Polygon Name'', ''Total Acreage'', ''Total''],
                   [''A'', ''10.00'', ''10.00'']]"
proof -
  let ?st = "\<lparr>results = [],
              warnings = [''Polygon '' @ quoted ''A'' @ '' has no coordinates.''],
              area_calls = []\<rparr> :: rat run_state"
  let ?doc = "[labelled ''A'' ''pasture'' \<lparr>outer_coordinates = None, inner_coordinates = []\<rparr>]"
  let ?all = "[point_placemark,
               labelled ''A'' ''pasture'' \<lparr>outer_coordinates = None, inner_coordinates = []\<rparr>,
               labelled ''B'' ''Area: 5 acres.'' (ring_of_text ''7'')]"
  have n: "list_all (yields_no_record exact_runtime) ?all"
    by code_simp
  have a: "list_all (\<lambda>pm. polygon pm = None) [point_placemark, point_placemark]"
    by (simp add: point_placemark_def)
  have c: "collect_results exact_runtime ?doc initial_state = Inr ?st"
    by code_simp
  have r: "results ?st = []"
    by simp
  have m: "main exact_runtime [labelled ''A'' ''Area: 10 acres.'' unit_square] =
      Inr (ReportWritten
             [[''Polygon Name'', ''Total Acreage'', ''Total''], [''A'', ''10.00'', ''10.00'']],
           \<lparr>results = [(''A'', 10)], warnings = [], area_calls = []\<rparr>)"
    by code_simp
  from empty_result_set [of exact_runtime ?all, THEN conjunct1, rule_format, OF n]
       empty_result_set [of exact_runtime ?doc ?st, THEN conjunct2, THEN conjunct1,
         rule_format, OF conjI [OF c r]]
       empty_result_set [of exact_runtime "[point_placemark, point_placemark]",
         THEN conjunct2, THEN conjunct2, THEN conjunct1, rule_format, OF a]
       empty_result_set [THEN conjunct2, THEN conjunct2, THEN conjunct2, rule_format, OF m]
  show ?thesis
    by (intro conjI)
qed

subsection \<open>The loop body\<close>

lemma convert_to_acres_error:
  "convert_to_acres R v u = Inl e \<Longrightarrow> e = ValueError"
  by (simp add: convert_to_acres_def Let_def split: if_splits)

lemma calculate_area_results:
  "calculate_area R exterior interiors st = Inr (a, st2) \<Longrightarrow>
     results st2 = results st \<and> warnings st2 = warnings st \<and>
     area_calls st2 = area_calls st @ [(exterior, interiors)]"
  by (auto simp: calculate_area_def split: sum.splits)

lemma determine_area_results:
  "determine_area R name area_info exterior interiors st = Inr (a, st2) \<Longrightarrow>
     results st2 = results st"
  by (auto simp: determine_area_def dest!: calculate_area_results
      split: option.splits sum.splits if_splits)


text \<open>The loop body on a placemark whose polygon has a non-empty exterior ring.\<close>

lemma process_placemark_ring:
  assumes "polygon pm = Some pg"
    and "placemark_name (name_el pm) = Inr name"
    and "parse_area_from_description R (placemark_description (desc_el pm)) = Inr area_info"
    and "extract_polygon_coords R pg = Inr (Some exterior, interiors)"
    and "exterior \<noteq> []"
  shows "process_placemark R pm st =
     (case determine_area R name area_info exterior interiors st of
        Inl e \<Rightarrow> Inl e
      | Inr (area_acres, st') \<Rightarrow> Inr (st'\<lparr>results := results st' @ [(name, area_acres)]\<rparr>))"
  using assms by (simp add: process_placemark_def Let_def)

text \<open>The loop body on a placemark whose polygon has no exterior point.\<close>

lemma process_placemark_skipped:
  assumes "polygon pm = Some pg"
    and "extract_polygon_coords R pg = Inr (exterior, interiors)"
    and "exterior = None \<or> exterior = Some []"
  shows "process_placemark R pm st =
     (case placemark_name (name_el pm) of
        Inl e \<Rightarrow> Inl e
      | Inr name \<Rightarrow>
          (case parse_area_from_description R (placemark_description (desc_el pm)) of
             Inl e \<Rightarrow> Inl e
           | Inr area_info \<Rightarrow>
               Inr (st\<lparr>warnings := warnings st @
                      [''Polygon '' @ quoted name @ '' has no coordinates.'']\<rparr>)))"
  using assms by (auto simp: process_placemark_def Let_def split: sum.splits)

text \<open>
  C1. For every polygon record (a placemark with a polygon, a name, and an exterior
  ring of at least one point), the acres value follows the fallback chain. Without an
  annotation in the description the geometric area is calculated directly. With an
  annotation \<open>(v, u)\<close>, \<open>convert_to_acres\<close> is tried first and its result is the
  acres value, with no warning and no geometric calculation. When it fails, it fails
  with the \<open>ValueError\<close> of the unknown unit; then a warning naming the unit and
  the polygon is logged and the geometric area is calculated.
\<close>

theorem fallback_chain:
  assumes "polygon pm = Some pg"
    and "placemark_name (name_el pm) = Inr name"
    and "parse_area_from_description R (placemark_description (desc_el pm)) = Inr area_info"
    and "extract_polygon_coords R pg = Inr (Some exterior, interiors)"
    and "exterior \<noteq> []"
  shows
    "(area_info = None \<longrightarrow>
        process_placemark R pm st =
          (case calculate_area R exterior interiors st of
             Inl e \<Rightarrow> Inl e
           | Inr (a, st1) \<Rightarrow> Inr (st1\<lparr>results := results st1 @ [(name, a)]\<rparr>))) \<and>
     (\<forall>v u a. area_info = Some (v, u) \<and> convert_to_acres R v u = Inr a \<longrightarrow>
        process_placemark R pm st = Inr (st\<lparr>results := results st @ [(name, a)]\<rparr>)) \<and>
     (\<forall>v u e. area_info = Some (v, u) \<and> convert_to_acres R v u = Inl e \<longrightarrow>
        e = ValueError \<and>
        process_placemark R pm st =
          (case calculate_area R exterior interiors
                  (st\<lparr>warnings := warnings st @
                     [''Unknown unit '' @ quoted u @ '' for polygon '' @ quoted name @
                      '', calculating area instead.'']\<rparr>) of
             Inl e \<Rightarrow> Inl e
           | Inr (a, st1) \<Rightarrow> Inr (st1\<lparr>results := results st1 @ [(name, a)]\<rparr>)))"
proof (intro conjI allI impI)
  assume "area_info = None"
  then show "process_placemark R pm st =
          (case calculate_area R exterior interiors st of
             Inl e \<Rightarrow> Inl e
           | Inr (a, st1) \<Rightarrow> Inr (st1\<lparr>results := results st1 @ [(name, a)]\<rparr>))"
    by (simp add: process_placemark_ring [OF assms] determine_area_def)
next
  fix v u a
  assume "area_info = Some (v, u) \<and> convert_to_acres R v u = Inr a"
  then show "process_placemark R pm st = Inr (st\<lparr>results := results st @ [(name, a)]\<rparr>)"
    by (simp add: process_placemark_ring [OF assms] determine_area_def)
next
  fix v u e
  assume h: "area_info = Some (v, u) \<and> convert_to_acres R v u = Inl e"
  then show "e = ValueError"
    by (auto dest: convert_to_acres_error)
  with h show "process_placemark R pm st =
          (case calculate_area R exterior interiors
                  (st\<lparr>warnings := warnings st @
                     [''Unknown unit '' @ quoted u @ '' for polygon '' @ quoted name @
                      '', calculating area instead.'']\<rparr>) of
             Inl e \<Rightarrow> Inl e
           | Inr (a, st1) \<Rightarrow> Inr (st1\<lparr>results := results st1 @ [(name, a)]\<rparr>))"
    by (simp add: process_placemark_ring [OF assms] determine_area_def)
qed

text \<open>
  C3, as amended. For every placemark that yields a result row, the reported name is
  the text of its name element with the surrounding whitespace removed when the
  element is present (so the empty string when that text is only whitespace), and
  \<open>Unnamed\<close> when the name element is missing.
\<close>

theorem reported_name:
  assumes "process_placemark R pm st = Inr st'"
    and "results st' \<noteq> results st"
  shows "(name_el pm = None \<and> map fst (results st') = map fst (results st) @ [''Unnamed'']) \<or>
     (\<exists>t. name_el pm = Some (Element (Some t)) \<and>
          map fst (results st') = map fst (results st) @ [strip t])"
proof -
  from assms obtain pg where pg: "polygon pm = Some pg"
    by (cases "polygon pm") (auto simp: process_placemark_def)
  from assms pg obtain name where name: "placemark_name (name_el pm) = Inr name"
    by (cases "placemark_name (name_el pm)") (auto simp: process_placemark_def)
  from assms pg name obtain area_info where
    info: "parse_area_from_description R (placemark_description (desc_el pm)) = Inr area_info"
    by (cases "parse_area_from_description R (placemark_description (desc_el pm))")
       (auto simp: process_placemark_def)
  from assms pg name info obtain exterior interiors where
    ext: "extract_polygon_coords R pg = Inr (exterior, interiors)"
    by (cases "extract_polygon_coords R pg") (auto simp: process_placemark_def)
  have ring: "\<exists>ring. exterior = Some ring \<and> ring \<noteq> []"
  proof (rule ccontr)
    assume "\<not> (\<exists>ring. exterior = Some ring \<and> ring \<noteq> [])"
    then have "exterior = None \<or> exterior = Some []"
      by (cases exterior) auto
    from process_placemark_skipped [OF pg ext this, of st] assms name info show False
      by auto
  qed
  then obtain ring where r: "exterior = Some ring" "ring \<noteq> []"
    by blast
  from process_placemark_ring [OF pg name info ext [unfolded r(1)] r(2), of st] assms
  obtain a st2 where d: "determine_area R name area_info ring interiors st = Inr (a, st2)"
    and st': "st' = st2\<lparr>results := results st2 @ [(name, a)]\<rparr>"
    by (auto split: sum.splits)
  from determine_area_results [OF d] st'
  have row: "map fst (results st') = map fst (results st) @ [name]"
    by simp
  from name row show ?thesis
    by (auto simp: placemark_name_def split: option.splits element.splits)
       (metis element.collapse)
qed




text \<open>
  C9, as amended. For a placemark whose description yields an annotation \<open>(v, u)\<close>
  that \<open>convert_to_acres\<close> accepts, and whose coordinate text parses without error
  to an exterior ring of at least one point, the reported acres is the result of
  \<open>convert_to_acres v u\<close>, no geometric area calculation takes place, and a second
  placemark that differs only in such coordinate text is processed to the same result.
\<close>

theorem annotation_independent_of_ring:
  assumes "polygon pm = Some pg" and "polygon pm' = Some pg'"
    and "name_el pm' = name_el pm" and "desc_el pm' = desc_el pm"
    and "placemark_name (name_el pm) = Inr name"
    and "parse_area_from_description R (placemark_description (desc_el pm)) = Inr (Some (v, u))"
    and "convert_to_acres R v u = Inr a"
    and "extract_polygon_coords R pg = Inr (Some exterior, interiors)" and "exterior \<noteq> []"
    and "extract_polygon_coords R pg' = Inr (Some exterior', interiors')" and "exterior' \<noteq> []"
  shows "process_placemark R pm st = Inr (st\<lparr>results := results st @ [(name, a)]\<rparr>) \<and>
     process_placemark R pm' st = process_placemark R pm st"
proof -
  have 1: "process_placemark R pm st = Inr (st\<lparr>results := results st @ [(name, a)]\<rparr>)"
    using assms(6,7)
    by (simp add: process_placemark_ring [OF assms(1,5,6,8,9)] determine_area_def)
  have 2: "process_placemark R pm' st = Inr (st\<lparr>results := results st @ [(name, a)]\<rparr>)"
    using assms(3,4,5,6,7)
    by (simp add: process_placemark_ring [OF assms(2) _ _ assms(10,11)] determine_area_def)
  from 1 2 show ?thesis
    by simp
qed

text \<open>
  C10, as amended. A polygon whose outer-boundary path is present, whose exterior
  coordinate text parses to zero points and whose interior rings parse without error
  is processed exactly as the same polygon without outer-boundary path: the placemark
  is skipped with the warning naming the polygon and adds no result (after the name
  and the description were read, which can raise in both cases alike).
\<close>

theorem empty_exterior_as_absent:
  assumes "polygon pm = Some pg"
    and "outer_coordinates pg = Some outer_ring"
    and "parse_coordinates R (text_attr outer_ring) = Inr []"
    and "parse_inner_rings R (inner_coordinates pg) = Inr interiors"
  shows "process_placemark R pm st =
       process_placemark R (pm\<lparr>polygon := Some (pg\<lparr>outer_coordinates := None\<rparr>)\<rparr>) st \<and>
     process_placemark R pm st =
       (case placemark_name (name_el pm) of
          Inl e \<Rightarrow> Inl e
        | Inr name \<Rightarrow>
            (case parse_area_from_description R (placemark_description (desc_el pm)) of
               Inl e \<Rightarrow> Inl e
             | Inr area_info \<Rightarrow>
                 Inr (st\<lparr>warnings := warnings st @
                        [''Polygon '' @ quoted name @ '' has no coordinates.'']\<rparr>)))"
proof -
  let ?pm' = "pm\<lparr>polygon := Some (pg\<lparr>outer_coordinates := None\<rparr>)\<rparr>"
  have e: "extract_polygon_coords R pg = Inr (Some [], interiors)"
    using assms by (simp add: extract_polygon_coords_def)
  have e': "extract_polygon_coords R (pg\<lparr>outer_coordinates := None\<rparr>) = Inr (None, [])"
    by (simp add: extract_polygon_coords_def)
  have p': "polygon ?pm' = Some (pg\<lparr>outer_coordinates := None\<rparr>)"
    by simp
  from process_placemark_skipped [OF assms(1) e, of st]
       process_placemark_skipped [OF p' e', of st]
  show ?thesis
    by (simp cong: sum.case_cong)
qed

subsection \<open>The loop body on example documents\<close>

theorem fallback_chain_witness:
  "process_placemark exact_runtime (labelled ''A'' ''corner lot'' unit_square) initial_state =
     Inr \<lparr>results = [(''A'', 50 / 202343)], warnings = [],
          area_calls = [(square_ring, [])]\<rparr> \<and>
   process_placemark exact_runtime (labelled ''B'' ''Area: 2 sq mi.'' unit_square) initial_state =
     Inr \<lparr>results = [(''B'', 1280)], warnings = [], area_calls = []\<rparr> \<and>
   process_placemark exact_runtime (labelled ''C'' ''Area: 2 furlongs.'' unit_square)
       initial_state =
     Inr \<lparr>results = [(''C'', 50 / 202343)],
          warnings = [''Unknown unit '' @ quoted ''furlongs'' @ '' for polygon '' @
                      quoted ''C'' @ '', calculating area instead.''],
          area_calls = [(square_ring, [])]\<rparr>"
proof -
  have ext: "extract_polygon_coords exact_runtime unit_square = Inr (Some square_ring, [])"
    by code_simp
  have ne: "square_ring \<noteq> []"
    by (simp add: square_ring_def)
  have pa: "polygon (labelled ''A'' ''corner lot'' unit_square) = Some unit_square"
    and pb: "polygon (labelled ''B'' ''Area: 2 sq mi.'' unit_square) = Some unit_square"
    and pc: "polygon (labelled ''C'' ''Area: 2 furlongs.'' unit_square) = Some unit_square"
    by (simp_all add: labelled_def)
  have na: "placemark_name (name_el (labelled ''A'' ''corner lot'' unit_square)) = Inr ''A''"
    and nb: "placemark_name (name_el (labelled ''B'' ''Area: 2 sq mi.'' unit_square)) = Inr ''B''"
    and nc: "placemark_name (name_el (labelled ''C'' ''Area: 2 furlongs.'' unit_square)) = Inr ''C''"
    by code_simp+
  have ia: "parse_area_from_description exact_runtime
        (placemark_description (desc_el (labelled ''A'' ''corner lot'' unit_square))) = Inr None"
    by code_simp
  have ib: "parse_area_from_description exact_runtime
        (placemark_description (desc_el (labelled ''B'' ''Area: 2 sq mi.'' unit_square))) =
      Inr (Some (2, ''sq mi''))"
    by code_simp
  have ic: "parse_area_from_description exact_runtime
        (placemark_description (desc_el (labelled ''C'' ''Area: 2 furlongs.'' unit_square))) =
      Inr (Some (2, ''furlongs''))"
    by code_simp
  have cb: "convert_to_acres exact_runtime 2 ''sq mi'' = Inr 1280"
    by code_simp
  have cc: "convert_to_acres exact_runtime 2 ''furlongs'' = Inl ValueError"
    by code_simp
  have ga: "(case calculate_area exact_runtime square_ring [] initial_state of
               Inl e \<Rightarrow> Inl e
             | Inr (a, st1) \<Rightarrow> Inr (st1\<lparr>results := results st1 @ [(''A'', a)]\<rparr>)) =
      Inr \<lparr>results = [(''A'', 50 / 202343)], warnings = [],
           area_calls = [(square_ring, [])]\<rparr>"
    by code_simp
  have gc: "(case calculate_area exact_runtime square_ring []
                    (initial_state\<lparr>warnings := warnings initial_state @
                       [''Unknown unit '' @ quoted ''furlongs'' @ '' for polygon '' @
                        quoted ''C'' @ '', calculating area instead.'']\<rparr>) of
               Inl e \<Rightarrow> Inl e
             | Inr (a, st1) \<Rightarrow> Inr (st1\<lparr>results := results st1 @ [(''C'', a)]\<rparr>)) =
      Inr \<lparr>results = [(''C'', 50 / 202343)],
           warnings = [''Unknown unit '' @ quoted ''furlongs'' @ '' for polygon '' @
                       quoted ''C'' @ '', calculating area instead.''],
           area_calls = [(square_ring, [])]\<rparr>"
    by code_simp
  have gb: "initial_state\<lparr>results := results initial_state @ [(''B'', 1280 :: rat)]\<rparr> =
      \<lparr>results = [(''B'', 1280)], warnings = [], area_calls = []\<rparr>"
    by (simp add: initial_state_def)
  from fallback_chain [OF pa na ia ext ne, of initial_state, THEN conjunct1, rule_format, OF refl]
  have a: "process_placemark exact_runtime (labelled ''A'' ''corner lot'' unit_square)
      initial_state =
     Inr \<lparr>results = [(''A'', 50 / 202343)], warnings = [],
          area_calls = [(square_ring, [])]\<rparr>"
    by (simp only: ga)
  from fallback_chain [OF pb nb ib ext ne, of initial_state, THEN conjunct2, THEN conjunct1,
         rule_format, OF conjI [OF refl cb]]
  have b: "process_placemark exact_runtime (labelled ''B'' ''Area: 2 sq mi.'' unit_square)
      initial_state =
     Inr \<lparr>results = [(''B'', 1280)], warnings = [], area_calls = []\<rparr>"
    by (simp only: gb)
  from fallback_chain [OF pc nc ic ext ne, of initial_state, THEN conjunct2, THEN conjunct2,
         rule_format, OF conjI [OF refl cc], THEN conjunct2]
  have c: "process_placemark exact_runtime (labelled ''C'' ''Area: 2 furlongs.'' unit_square)
       initial_state =
     Inr \<lparr>results = [(''C'', 50 / 202343)],
          warnings = [''Unknown unit '' @ quoted ''furlongs'' @ '' for polygon '' @
                      quoted ''C'' @ '', calculating area instead.''],
          area_calls = [(square_ring, [])]\<rparr>"
    by (simp only: gc)
  from a b c show ?thesis
    by (intro conjI)
qed

text \<open>
  C3 as stated fails: a name element whose text is only whitespace is reported as the
  empty string, not as \<open>Unnamed\<close>.
\<close>

theorem blank_name_counterexample:
  "main exact_runtime [labelled ''  '' ''Area: 5 acres.'' unit_square] =
     Inr (ReportWritten
            [[''Polygon Name'', ''Total Acreage'', ''Total''], [[], ''5.00'', ''5.00'']],
          \<lparr>results = [([], 5)], warnings = [], area_calls = []\<rparr>)"
  by code_simp

theorem reported_name_witness:
  "map fst (results \<lparr>results = [(''Lot 7'', 5 :: rat)], warnings = [], area_calls = []\<rparr>) =
     map fst (results (initial_state :: rat run_state)) @ [strip ''  Lot 7 ''] \<and>
   map fst (results \<lparr>results = [(''Unnamed'', 5 :: rat)], warnings = [], area_calls = []\<rparr>) =
     map fst (results (initial_state :: rat run_state)) @ [''Unnamed'']"
proof -
  let ?pa = "labelled ''  Lot 7 '' ''Area: 5 acres.'' unit_square"
  let ?pb = "\<lparr>polygon = Some unit_square, name_el = None,
              desc_el = Some (Element (Some ''Area: 5 acres.''))\<rparr>"
  let ?sa = "\<lparr>results = [(''Lot 7'', 5)], warnings = [], area_calls = []\<rparr> :: rat run_state"
  let ?sb = "\<lparr>results = [(''Unnamed'', 5)], warnings = [], area_calls = []\<rparr> :: rat run_state"
  have a: "process_placemark exact_runtime ?pa initial_state = Inr ?sa"
    by code_simp
  have b: "process_placemark exact_runtime ?pb initial_state = Inr ?sb"
    by code_simp
  have na: "results ?sa \<noteq> results (initial_state :: rat run_state)"
    and nb: "results ?sb \<noteq> results (initial_state :: rat run_state)"
    by (simp_all add: initial_state_def)
  from reported_name [OF a na] reported_name [OF b nb] show ?thesis
    by (simp add: labelled_def)
qed



text \<open>
  C9 as stated fails: two placemarks with the same recognised annotation that differ
  only in their non-empty coordinate text; one is reported with 5 acres, the other,
  whose text \<open>7\<close> has no token of two components, is skipped and reports no acres.
\<close>

theorem nonempty_text_counterexample:
  "process_placemark exact_runtime (labelled ''P'' ''Area: 5 acres.'' (ring_of_text ''0,0 4,0 0,3''))
       initial_state =
     Inr \<lparr>results = [(''P'', 5)], warnings = [], area_calls = []\<rparr> \<and>
   process_placemark exact_runtime (labelled ''P'' ''Area: 5 acres.'' (ring_of_text ''7''))
       initial_state =
     Inr \<lparr>results = [], warnings = [''Polygon '' @ quoted ''P'' @ '' has no coordinates.''],
          area_calls = []\<rparr>"
  by code_simp

theorem annotation_independent_of_ring_witness:
  "process_placemark exact_runtime (labelled ''P'' ''Area: 5 acres.'' unit_square) initial_state =
     Inr (initial_state\<lparr>results := results initial_state @ [(''P'', 5)]\<rparr>) \<and>
   process_placemark exact_runtime (labelled ''P'' ''Area: 5 acres.'' (ring_of_text ''0,0 4,0 0,3''))
       initial_state =
     process_placemark exact_runtime (labelled ''P'' ''Area: 5 acres.'' unit_square) initial_state"
proof -
  let ?pm = "labelled ''P'' ''Area: 5 acres.'' unit_square"
  let ?pm' = "labelled ''P'' ''Area: 5 acres.'' (ring_of_text ''0,0 4,0 0,3'')"
  have p: "polygon ?pm = Some unit_square" and p': "polygon ?pm' = Some (ring_of_text ''0,0 4,0 0,3'')"
    and n: "name_el ?pm' = name_el ?pm" and d: "desc_el ?pm' = desc_el ?pm"
    by (simp_all add: labelled_def)
  have nm: "placemark_name (name_el ?pm) = Inr ''P''"
    by code_simp
  have i: "parse_area_from_description exact_runtime (placemark_description (desc_el ?pm)) =
      Inr (Some (5, ''acres''))"
    by code_simp
  have c: "convert_to_acres exact_runtime 5 ''acres'' = Inr 5"
    by code_simp
  have e: "extract_polygon_coords exact_runtime unit_square = Inr (Some square_ring, [])"
    by code_simp
  have e': "extract_polygon_coords exact_runtime (ring_of_text ''0,0 4,0 0,3'') =
      Inr (Some [(0, 0), (4, 0), (0, 3)], [])"
    by code_simp
  have ne: "square_ring \<noteq> []" and ne': "[(0, 0), (4, 0), (0, 3)] \<noteq> ([] :: rat point list)"
    by (simp_all add: square_ring_def)
  show ?thesis
    by (rule annotation_independent_of_ring [OF p p' n d nm i c e ne e' ne'])
qed

text \<open>
  C10 as stated fails: with the outer-boundary path present the interior rings are
  parsed before the exterior ring is tested, so a malformed interior ring raises
  \<open>ValueError\<close>; with the path absent the same placemark is skipped with the warning.
\<close>

theorem malformed_interior_counterexample:
  "process_placemark exact_runtime
     (labelled ''P'' ''pasture''
        \<lparr>outer_coordinates = Some (Element (Some ''7'')),
         inner_coordinates = [Element (Some ''a,b'')]\<rparr>) initial_state = Inl ValueError \<and>
   process_placemark exact_runtime
     (labelled ''P'' ''pasture''
        \<lparr>outer_coordinates = None,
         inner_coordinates = [Element (Some ''a,b'')]\<rparr>) initial_state =
     Inr \<lparr>results = [], warnings = [''Polygon '' @ quoted ''P'' @ '' has no coordinates.''],
          area_calls = []\<rparr>"
  by code_simp

theorem empty_exterior_as_absent_witness:
  "process_placemark exact_runtime (labelled ''P'' ''pasture'' (ring_of_text ''7'')) initial_state =
     process_placemark exact_runtime
       ((labelled ''P'' ''pasture'' (ring_of_text ''7''))
          \<lparr>polygon := Some ((ring_of_text ''7'')\<lparr>outer_coordinates := None\<rparr>)\<rparr>) initial_state \<and>
   process_placemark exact_runtime (labelled ''P'' ''pasture'' (ring_of_text ''7'')) initial_state =
     Inr \<lparr>results = [], warnings = [''Polygon '' @ quoted ''P'' @ '' has no coordinates.''],
          area_calls = []\<rparr>"
proof -
  let ?pm = "labelled ''P'' ''pasture'' (ring_of_text ''7'')"
  have p: "polygon ?pm = Some (ring_of_text ''7'')"
    by (simp add: labelled_def)
  have o: "outer_coordinates (ring_of_text ''7'') = Some (Element (Some ''7''))"
    by (simp add: ring_of_text_def)
  have c: "parse_coordinates exact_runtime (text_attr (Element (Some ''7''))) = Inr []"
    by code_simp
  have i: "parse_inner_rings exact_runtime (inner_coordinates (ring_of_text ''7'')) = Inr []"
    by code_simp
  have r: "(case placemark_name (name_el ?pm) of
          Inl e \<Rightarrow> Inl e
        | Inr name \<Rightarrow>
            (case parse_area_from_description exact_runtime
                    (placemark_description (desc_el ?pm)) of
               Inl e \<Rightarrow> Inl e
             | Inr area_info \<Rightarrow>
                 Inr ((initial_state :: rat run_state)\<lparr>warnings := warnings initial_state @
                        [''Polygon '' @ quoted name @ '' has no coordinates.'']\<rparr>))) =
      Inr \<lparr>results = [], warnings = [''Polygon '' @ quoted ''P'' @ '' has no coordinates.''],
          area_calls = []\<rparr>"
    by code_simp
  note t = empty_exterior_as_absent [OF p o c i, of initial_state]
  have s: "process_placemark exact_runtime ?pm initial_state =
      Inr \<lparr>results = [], warnings = [''Polygon '' @ quoted ''P'' @ '' has no coordinates.''],
          area_calls = []\<rparr>"
    using t [THEN conjunct2] unfolding r .
  from t [THEN conjunct1] s show ?thesis
    by (rule conjI)
qed

subsection \<open>The area annotation\<close>

lemma first_match_down_top:
  "f (lo + k) = Some r \<Longrightarrow> first_match_down f lo k = Some r"
  by (cases k) simp_all

lemma first_match_down_none:
  "(\<And>j. j < k \<Longrightarrow> f (lo + j) = None) \<Longrightarrow> first_match_down f lo k = f (lo + k)"
proof (induction k)
  case 0
  show ?case by simp
next
  case (Suc k)
  show ?case
  proof (cases "f (lo + Suc k)")
    case None
    have "first_match_down f lo k = f (lo + k)"
      by (rule Suc.IH) (simp add: Suc.prems)
    also have "f (lo + k) = None"
      by (rule Suc.prems) simp
    finally show ?thesis
      using None by simp
  next
    case (Some r)
    then show ?thesis by simp
  qed
qed

lemma number_not_space: "number_char c \<Longrightarrow> \<not> py_isspace c"
  by (auto simp: number_char_def py_isspace_def digit_chars_def whitespace_chars_def)

lemma number_not_unit: "number_char c \<Longrightarrow> \<not> unit_char c"
  by (auto simp: number_char_def unit_char_def py_isspace_def digit_chars_def
      whitespace_chars_def ascii_lowercase_def ascii_uppercase_def)

lemma space_unit: "py_isspace c \<Longrightarrow> unit_char c"
  by (simp add: unit_char_def)

lemma drop_in_run:
  assumes "k < length (takeWhile P s)"
  shows "\<exists>c rest. drop k s = c # rest \<and> P c"
proof -
  from assms have k: "k < length s"
    using length_takeWhile_le [of P s] by simp
  have "takeWhile P s ! k \<in> set (takeWhile P s)"
    using assms by simp
  then have "P (takeWhile P s ! k)"
    by (rule set_takeWhileD [THEN conjunct2])
  moreover have "takeWhile P s ! k = s ! k"
    using assms by (rule takeWhile_nth)
  ultimately have "P (s ! k)" by simp
  with Cons_nth_drop_Suc [OF k] show ?thesis
    by metis
qed

declare match_here.simps [simp del]

lemma match_unit:
  "match_here [GroupPlus unit_char] s =
     (if takeWhile unit_char s = [] then None else Some [takeWhile unit_char s])"
proof (cases "takeWhile unit_char s = []")
  case True
  then show ?thesis by (simp add: match_here.simps(4))
next
  case False
  let ?n = "length (takeWhile unit_char s)"
  let ?g = "\<lambda>k. map_option (\<lambda>groups. take k s # groups) (match_here [] (drop k s))"
  have "?g (1 + (?n - 1)) = Some [takeWhile unit_char s]"
    using False by (simp add: takeWhile_eq_take [symmetric] match_here.simps(1))
  then have "first_match_down ?g 1 (?n - 1) = Some [takeWhile unit_char s]"
    by (rule first_match_down_top)
  with False show ?thesis
    by (simp add: Let_def match_here.simps(4))
qed

lemma match_space_unit:
  "match_here [Star py_isspace, GroupPlus unit_char] s =
     (let sp = takeWhile py_isspace s;
          un = takeWhile unit_char (dropWhile py_isspace s)
      in if un \<noteq> [] then Some [un]
         else if sp \<noteq> [] then Some [[last sp]]
         else None)"
proof -
  let ?sp = "takeWhile py_isspace s"
  let ?r = "dropWhile py_isspace s"
  let ?un = "takeWhile unit_char ?r"
  let ?f = "\<lambda>k. match_here [GroupPlus unit_char] (drop k s)"
  have top: "?f (0 + length ?sp) = (if ?un = [] then None else Some [?un])"
    by (simp add: match_unit dropWhile_eq_drop [symmetric])
  show ?thesis
  proof (cases "?un = []")
    case False
    with top have "first_match_down ?f 0 (length ?sp) = Some [?un]"
      by (intro first_match_down_top) simp
    with False show ?thesis
      by (simp add: Let_def match_here.simps(3))
  next
    case True
    show ?thesis
    proof (cases "length ?sp")
      case 0
      with True top show ?thesis
        by (simp add: Let_def match_here.simps(3))
    next
      case (Suc m)
      then have ne: "?sp \<noteq> []" by auto
      have s: "s = ?sp @ ?r" by simp
      have "drop m s = drop m ?sp @ ?r"
        using Suc by (subst s, simp del: takeWhile_dropWhile_id)
      moreover have "drop m ?sp = [last ?sp]"
        using Suc ne by (metis append_butlast_last_id append_eq_conv_conj diff_Suc_1 length_butlast)
      ultimately have d: "drop m s = last ?sp # ?r" by simp
      have "last ?sp \<in> set ?sp" using ne by simp
      then have "py_isspace (last ?sp)"
        by (rule set_takeWhileD [THEN conjunct2])
      then have "unit_char (last ?sp)" by (rule space_unit)
      with True d have "?f (0 + m) = Some [[last ?sp]]"
        by (simp add: match_unit)
      then have "first_match_down ?f 0 m = Some [[last ?sp]]"
        by (rule first_match_down_top)
      moreover have "?f (Suc m) = None"
        using top True Suc by simp
      ultimately show ?thesis
        using True ne Suc by (simp add: Let_def match_here.simps(3))
    qed
  qed
qed

lemma match_number_unit:
  "match_here [GroupPlus number_char, Star py_isspace, GroupPlus unit_char] s =
     (let num = takeWhile number_char s in
      if num = [] then None
      else map_option (\<lambda>groups. num # groups)
             (match_here [Star py_isspace, GroupPlus unit_char] (dropWhile number_char s)))"
proof (cases "takeWhile number_char s = []")
  case True
  then show ?thesis
    by (simp add: match_here.simps(4))
next
  case False
  let ?n = "length (takeWhile number_char s)"
  let ?g = "\<lambda>k. map_option (\<lambda>groups. take k s # groups)
              (match_here [Star py_isspace, GroupPlus unit_char] (drop k s))"
  have none: "?g (1 + j) = None" if "j < ?n - 1" for j
  proof -
    from that have "1 + j < ?n" by simp
    from drop_in_run [OF this] obtain c rest
      where d: "drop (1 + j) s = c # rest" and c: "number_char c"
      by blast
    from c have "\<not> py_isspace c" and "\<not> unit_char c"
      by (simp_all add: number_not_space number_not_unit)
    with d show ?thesis
      by (simp add: match_space_unit)
  qed
  have "first_match_down ?g 1 (?n - 1) = ?g (1 + (?n - 1))"
    by (rule first_match_down_none) (rule none)
  also have "1 + (?n - 1) = ?n"
    using False by (cases "takeWhile number_char s") simp_all
  finally have "first_match_down ?g 1 (?n - 1) = ?g ?n" .
  with False show ?thesis
    by (simp add: match_here.simps(4) Let_def takeWhile_eq_take [symmetric]
        dropWhile_eq_drop [symmetric])
qed

lemma match_space_number_unit:
  "match_here [Star py_isspace, GroupPlus number_char, Star py_isspace, GroupPlus unit_char] s =
     match_here [GroupPlus number_char, Star py_isspace, GroupPlus unit_char]
       (dropWhile py_isspace s)"
proof -
  let ?n = "length (takeWhile py_isspace s)"
  let ?f = "\<lambda>k. match_here [GroupPlus number_char, Star py_isspace, GroupPlus unit_char]
              (drop k s)"
  have none: "?f (0 + j) = None" if "j < ?n" for j
  proof -
    from drop_in_run [OF that] obtain c rest
      where d: "drop j s = c # rest" and c: "py_isspace c"
      by blast
    from c have "\<not> number_char c"
      using number_not_space by blast
    with d show ?thesis
      by (simp add: match_number_unit)
  qed
  have "first_match_down ?f 0 ?n = ?f (0 + ?n)"
    by (rule first_match_down_none) (rule none)
  then show ?thesis
    by (simp add: match_here.simps(3) dropWhile_eq_drop [symmetric])
qed

lemma lower_area_literal:
  "lower [c1, c2, c3, c4, c5] = ''area:'' \<longleftrightarrow>
     ignorecase CHR ''a'' c1 \<and> ignorecase CHR ''r'' c2 \<and> ignorecase CHR ''e'' c3 \<and>
     ignorecase CHR ''a'' c4 \<and> ignorecase CHR '':'' c5"
  by (simp add: lower_def ignorecase_def)

lemma match_five_chars:
  "match_here (Chr p1 # Chr p2 # Chr p3 # Chr p4 # Chr p5 # items) s =
     (case s of
        c1 # c2 # c3 # c4 # c5 # rest \<Rightarrow>
          if p1 c1 \<and> p2 c2 \<and> p3 c3 \<and> p4 c4 \<and> p5 c5 then match_here items rest else None
      | _ \<Rightarrow> None)"
  by (simp add: match_here.simps(2) split: list.splits)

lemma length_five:
  "length xs = 5 \<Longrightarrow> \<exists>c1 c2 c3 c4 c5. xs = [c1, c2, c3, c4, c5]"
  by (auto simp: eval_nat_numeral length_Suc_conv)

lemma match_area_pattern:
  "match_here area_pattern s = map_option (\<lambda>(num, un). [num, un]) (area_match_at s)"
proof (cases "length s < 5")
  case True
  then have "match_here area_pattern s = None"
    unfolding area_pattern_def match_five_chars
    by (auto split: list.splits)
  with True show ?thesis
    by (simp add: area_match_at_def)
next
  case False
  then have "length (take 5 s) = 5"
    by simp
  from length_five [OF this] obtain c1 c2 c3 c4 c5
    where t: "take 5 s = [c1, c2, c3, c4, c5]"
    by blast
  define rest where "rest = drop 5 s"
  have s: "s = c1 # c2 # c3 # c4 # c5 # rest"
    using append_take_drop_id [of 5 s] t rest_def by simp
  show ?thesis
  proof (cases "lower [c1, c2, c3, c4, c5] = ''area:''")
    case False
    then have "match_here area_pattern s = None"
      unfolding area_pattern_def match_five_chars s
      by (auto simp: lower_area_literal)
    with False show ?thesis
      unfolding s area_match_at_def
      by simp
  next
    case True
    then have "match_here area_pattern s =
        match_here [Star py_isspace, GroupPlus number_char, Star py_isspace, GroupPlus unit_char]
          rest"
      unfolding area_pattern_def match_five_chars s
      by (simp add: lower_area_literal)
    with True show ?thesis
      unfolding s area_match_at_def
      by (simp add: match_space_number_unit match_number_unit match_space_unit Let_def)
  qed
qed

lemma re_search_area_pattern:
  "re_search area_pattern d = map_option (\<lambda>(num, un). [num, un]) (first_area_match d)"
proof (induction d)
  case Nil
  show ?case
    by (simp add: match_area_pattern area_match_at_def)
next
  case (Cons c cs)
  then show ?case
    by (simp add: match_area_pattern split: option.splits)
qed

lemma first_match_down_Some:
  "first_match_down f lo k = Some r \<Longrightarrow> \<exists>j\<le>k. f (lo + j) = Some r"
proof (induction k)
  case 0
  then show ?case by simp
next
  case (Suc k)
  show ?case
  proof (cases "f (lo + Suc k)")
    case None
    with Suc.prems have "first_match_down f lo k = Some r" by simp
    from Suc.IH [OF this] show ?thesis
      using le_Suc_eq by blast
  next
    case (Some r')
    with Suc.prems have "f (lo + Suc k) = Some r" by simp
    then show ?thesis by blast
  qed
qed

lemma first_match_down_exists:
  "j \<le> k \<Longrightarrow> f (lo + j) = Some r \<Longrightarrow> \<exists>r'. first_match_down f lo k = Some r'"
proof (induction k)
  case 0
  then show ?case by simp
next
  case (Suc k)
  show ?case
  proof (cases "f (lo + Suc k)")
    case None
    with Suc.prems have "j \<le> k"
      by (cases "j = Suc k") auto
    from Suc.IH [OF this Suc.prems(2)] None show ?thesis by simp
  next
    case (Some r')
    then show ?thesis by simp
  qed
qed

lemma take_in_run:
  assumes "k \<le> length (takeWhile p s)"
  shows "list_all p (take k s)"
proof -
  have "takeWhile p s = take (length (takeWhile p s)) s"
    by (rule takeWhile_eq_take)
  then have "take k (takeWhile p s) = take k (take (length (takeWhile p s)) s)"
    by simp
  also have "\<dots> = take k s"
    using assms by (simp add: min_def)
  finally have "take k s = take k (takeWhile p s)"
    by simp
  moreover have "set (take k (takeWhile p s)) \<subseteq> set (takeWhile p s)"
    by (rule set_take_subset)
  ultimately show ?thesis
    by (auto simp: list_all_iff dest: set_takeWhileD)
qed

lemma run_covers:
  "list_all p w \<Longrightarrow> length w \<le> length (takeWhile p (w @ s))"
  by (simp add: list_all_iff takeWhile_append2)

text \<open>Every match found by the backtracking matcher is a match of the pattern.\<close>

lemma match_here_sound:
  "match_here items s = Some groups \<Longrightarrow> \<exists>rest. pattern_match items s groups rest"
proof (induction items arbitrary: s groups)
  case Nil
  then show ?case
    by (auto simp: match_here.simps(1) intro: match_end)
next
  case (Cons item items)
  show ?case
  proof (cases item)
    case (Chr p)
    with Cons.prems obtain c cs where s: "s = c # cs" and c: "p c"
      and m: "match_here items cs = Some groups"
      by (auto simp: match_here.simps(2) split: list.splits if_splits)
    from Cons.IH [OF m] c show ?thesis
      unfolding Chr s by (blast intro: match_chr)
  next
    case (Star p)
    with Cons.prems have "first_match_down (\<lambda>k. match_here items (drop k s)) 0
        (length (takeWhile p s)) = Some groups"
      by (simp add: match_here.simps(3))
    from first_match_down_Some [OF this] obtain j
      where j: "j \<le> length (takeWhile p s)" and m: "match_here items (drop j s) = Some groups"
      by auto
    from Cons.IH [OF m] obtain rest where "pattern_match items (drop j s) groups rest"
      by blast
    with take_in_run [OF j] have "pattern_match (Star p # items) (take j s @ drop j s) groups rest"
      by (rule match_star)
    then show ?thesis
      unfolding Star by auto
  next
    case (GroupPlus p)
    let ?g = "\<lambda>k. map_option (\<lambda>groups. take k s # groups) (match_here items (drop k s))"
    from Cons.prems GroupPlus have n: "length (takeWhile p s) \<noteq> 0"
      and f: "first_match_down ?g 1 (length (takeWhile p s) - 1) = Some groups"
      by (auto simp: match_here.simps(4) Let_def split: if_splits)
    from first_match_down_Some [OF f] obtain j
      where j: "j \<le> length (takeWhile p s) - 1" and g: "?g (1 + j) = Some groups"
      by auto
    from g obtain groups' where m: "match_here items (drop (1 + j) s) = Some groups'"
      and groups: "groups = take (1 + j) s # groups'"
      by auto
    from j n have k: "1 + j \<le> length (takeWhile p s)"
      by (cases "takeWhile p s") simp_all
    with length_takeWhile_le [of p s] have "take (1 + j) s \<noteq> []"
      by (cases s) auto
    moreover from Cons.IH [OF m] obtain rest
      where "pattern_match items (drop (1 + j) s) groups' rest"
      by blast
    ultimately have "pattern_match (GroupPlus p # items) (take (1 + j) s @ drop (1 + j) s)
        (take (1 + j) s # groups') rest"
      using take_in_run [OF k] by (intro match_group)
    then show ?thesis
      unfolding GroupPlus groups by auto
  qed
qed

text \<open>Where the pattern has a match, the backtracking matcher finds one.\<close>

lemma match_here_complete:
  "pattern_match items s groups rest \<Longrightarrow> \<exists>groups'. match_here items s = Some groups'"
proof (induction rule: pattern_match.induct)
  case (match_end s)
  show ?case by (simp add: match_here.simps(1))
next
  case (match_chr p c items s groups rest)
  then show ?case by (simp add: match_here.simps(2))
next
  case (match_star p w items s groups rest)
  then obtain groups' where m: "match_here items s = Some groups'"
    by blast
  let ?f = "\<lambda>k. match_here items (drop k (w @ s))"
  from m have "?f (0 + length w) = Some groups'"
    by simp
  from first_match_down_exists [where f = ?f and lo = 0 and j = "length w",
         OF run_covers [OF match_star.hyps(1)] this]
  show ?case
    by (simp add: match_here.simps(3))
next
  case (match_group w p items s groups rest)
  then obtain groups' where m: "match_here items s = Some groups'"
    by blast
  let ?n = "length (takeWhile p (w @ s))"
  let ?g = "\<lambda>k. map_option (\<lambda>groups. take k (w @ s) # groups)
              (match_here items (drop k (w @ s)))"
  from match_group.hyps(1) have w: "1 + (length w - 1) = length w"
    by (cases w) simp_all
  from run_covers [OF match_group.hyps(2)] have le: "length w - 1 \<le> ?n - 1"
    by (rule diff_le_mono)
  from m have "?g (1 + (length w - 1)) = Some (w # groups')"
    unfolding w by simp
  from first_match_down_exists [where f = ?g and lo = 1, OF le this] obtain r'
    where "first_match_down ?g 1 (?n - 1) = Some r'"
    by blast
  moreover from run_covers [OF match_group.hyps(2), of s] match_group.hyps(1)
  have "?n \<noteq> 0"
    by (cases w) (auto split: if_splits)
  ultimately show ?case
    by (simp add: match_here.simps(4) Let_def)
qed

lemma re_search_Some:
  "re_search items d = Some groups \<Longrightarrow>
     \<exists>pre s. d = pre @ s \<and> match_here items s = Some groups"
proof (induction d)
  case Nil
  then show ?case by simp
next
  case (Cons c cs)
  show ?case
  proof (cases "match_here items (c # cs)")
    case None
    with Cons.prems have "re_search items cs = Some groups" by simp
    from Cons.IH [OF this] obtain pre s where "cs = pre @ s" "match_here items s = Some groups"
      by blast
    then have "c # cs = (c # pre) @ s \<and> match_here items s = Some groups"
      by simp
    then show ?thesis by blast
  next
    case (Some g)
    with Cons.prems have "c # cs = [] @ (c # cs) \<and> match_here items (c # cs) = Some groups"
      by simp
    then show ?thesis by blast
  qed
qed

lemma re_search_None:
  "re_search items d = None \<Longrightarrow> d = pre @ s \<Longrightarrow> match_here items s = None"
proof (induction d arbitrary: pre)
  case Nil
  then show ?case by simp
next
  case (Cons c cs)
  from Cons.prems(1) have h: "match_here items (c # cs) = None" and t: "re_search items cs = None"
    by (auto split: option.splits)
  show ?case
  proof (cases pre)
    case Nil
    with Cons.prems(2) h show ?thesis by simp
  next
    case (Cons a pre')
    with Cons.prems(2) have "cs = pre' @ s" by simp
    from Cons.IH [OF t this] show ?thesis .
  qed
qed

lemma parse_area_scan:
  "parse_area_from_description R (Some d) =
     (case first_area_match d of
        None \<Rightarrow> Inr None
      | Some (num, un) \<Rightarrow>
          (case float_of_str R num of
             None \<Rightarrow> Inl ValueError
           | Some v \<Rightarrow> Inr (Some (v, lower un))))"
  by (simp add: parse_area_from_description_def re_search_area_pattern
      split: option.splits prod.splits)

text \<open>
  C5, as amended. For every description, \<open>parse_area_from_description\<close> takes the
  leftmost start at which \<open>Area:\<close> (in any case) is followed by optional whitespace
  and a non-empty run of digits and points, and this by a unit. The number is the
  longest such run, with any number of points. The unit is the longest run of letters
  and whitespace after the number, without its leading whitespace when a letter
  follows that whitespace, and the last whitespace character alone when none does.
  When \<open>float\<close> accepts the number, the result is the value and the lower-cased
  unit; the result is "no annotation" when the pattern has no match at any start. A
  returned pair always comes from a match of the pattern.
\<close>

theorem parse_area_first_match:
  "(first_area_match d = None \<longrightarrow> parse_area_from_description R (Some d) = Inr None) \<and>
   (\<forall>num un v. first_area_match d = Some (num, un) \<and> float_of_str R num = Some v \<longrightarrow>
      parse_area_from_description R (Some d) = Inr (Some (v, lower un))) \<and>
   (parse_area_from_description R (Some d) = Inr None \<longleftrightarrow>
      \<not> (\<exists>pre s groups rest. d = pre @ s \<and> pattern_match area_pattern s groups rest)) \<and>
   (\<forall>v u. parse_area_from_description R (Some d) = Inr (Some (v, u)) \<longrightarrow>
      (\<exists>pre s num un rest. d = pre @ s \<and> pattern_match area_pattern s [num, un] rest \<and>
         float_of_str R num = Some v \<and> u = lower un))"
proof (intro conjI allI impI)
  assume "first_area_match d = None"
  then show "parse_area_from_description R (Some d) = Inr None"
    by (simp add: parse_area_scan)
next
  fix num un v
  assume "first_area_match d = Some (num, un) \<and> float_of_str R num = Some v"
  then show "parse_area_from_description R (Some d) = Inr (Some (v, lower un))"
    by (simp add: parse_area_scan)
next
  show "parse_area_from_description R (Some d) = Inr None \<longleftrightarrow>
      \<not> (\<exists>pre s groups rest. d = pre @ s \<and> pattern_match area_pattern s groups rest)"
  proof
    assume "parse_area_from_description R (Some d) = Inr None"
    then have none: "re_search area_pattern d = None"
      by (auto simp: parse_area_from_description_def split: option.splits)
    show "\<not> (\<exists>pre s groups rest. d = pre @ s \<and> pattern_match area_pattern s groups rest)"
    proof
      assume "\<exists>pre s groups rest. d = pre @ s \<and> pattern_match area_pattern s groups rest"
      then obtain pre s groups rest
        where d: "d = pre @ s" and m: "pattern_match area_pattern s groups rest"
        by blast
      from re_search_None [OF none d] match_here_complete [OF m] show False
        by simp
    qed
  next
    assume no: "\<not> (\<exists>pre s groups rest. d = pre @ s \<and>
        pattern_match area_pattern s groups rest)"
    have "re_search area_pattern d = None"
    proof (rule ccontr)
      assume "re_search area_pattern d \<noteq> None"
      then obtain groups where "re_search area_pattern d = Some groups"
        by auto
      from re_search_Some [OF this] obtain pre s
        where "d = pre @ s" and "match_here area_pattern s = Some groups"
        by blast
      with match_here_sound [of area_pattern s groups] no show False
        by blast
    qed
    then show "parse_area_from_description R (Some d) = Inr None"
      by (simp add: parse_area_from_description_def)
  qed
next
  fix v u
  assume p: "parse_area_from_description R (Some d) = Inr (Some (v, u))"
  then obtain num un where f: "first_area_match d = Some (num, un)"
    and v: "float_of_str R num = Some v" and u: "u = lower un"
    by (auto simp: parse_area_scan split: option.splits)
  from f have "re_search area_pattern d = Some [num, un]"
    by (simp add: re_search_area_pattern)
  from re_search_Some [OF this] obtain pre s
    where d: "d = pre @ s" and "match_here area_pattern s = Some [num, un]"
    by blast
  from match_here_sound [OF this(2)] obtain rest
    where "pattern_match area_pattern s [num, un] rest"
    by blast
  with d v u show "\<exists>pre s num un rest. d = pre @ s \<and>
      pattern_match area_pattern s [num, un] rest \<and> float_of_str R num = Some v \<and> u = lower un"
    by blast
qed

text \<open>
  C5 as stated fails: after \<open>Area: 5\<close> and a blank the parser returns an annotation
  whose unit is the blank, which is not one or more alphabetic tokens.
\<close>

theorem blank_unit_counterexample:
  "parse_area_from_description exact_runtime (Some ''Area: 5 '') = Inr (Some (5, '' '')) \<and>
   \<not> spec_unit_words '' ''"
  by code_simp

theorem parse_area_first_match_witness:
  "parse_area_from_description exact_runtime (Some ''plain text'') = Inr None \<and>
   parse_area_from_description exact_runtime (Some ''Lot 4. Area: 5.2 Sq Mi.'') =
     Inr (Some (26 / 5, lower ''Sq Mi'')) \<and>
   (\<exists>pre s num un rest. ''Lot 4. Area: 5.2 Sq Mi.'' = pre @ s \<and>
      pattern_match area_pattern s [num, un] rest \<and>
      float_of_str exact_runtime num = Some (26 / 5) \<and> ''sq mi'' = lower un)"
proof -
  have n: "first_area_match ''plain text'' = None"
    by code_simp
  have s: "first_area_match ''Lot 4. Area: 5.2 Sq Mi.'' = Some (''5.2'', ''Sq Mi'')"
    by code_simp
  have f: "float_of_str exact_runtime ''5.2'' = Some (26 / 5)"
    by code_simp
  have l: "lower ''Sq Mi'' = ''sq mi''"
    by code_simp
  note t = parse_area_first_match [of "''Lot 4. Area: 5.2 Sq Mi.''" exact_runtime]
  have 1: "parse_area_from_description exact_runtime (Some ''plain text'') = Inr None"
    using parse_area_first_match [of "''plain text''" exact_runtime, THEN conjunct1] n
    by (rule mp)
  have 2: "parse_area_from_description exact_runtime (Some ''Lot 4. Area: 5.2 Sq Mi.'') =
     Inr (Some (26 / 5, lower ''Sq Mi''))"
    using t [THEN conjunct2, THEN conjunct1, rule_format, OF conjI [OF s f]] .
  have 3: "\<exists>pre s num un rest. ''Lot 4. Area: 5.2 Sq Mi.'' = pre @ s \<and>
      pattern_match area_pattern s [num, un] rest \<and>
      float_of_str exact_runtime num = Some (26 / 5) \<and> ''sq mi'' = lower un"
    using t [THEN conjunct2, THEN conjunct2, THEN conjunct2, rule_format, OF 2 [unfolded l]] .
  from 1 2 3 show ?thesis
    by (intro conjI)
qed

subsection \<open>Malformed coordinates\<close>

lemma split_ws_acc_leading:
  "cur = [] \<Longrightarrow> split_ws_acc cur (dropWhile py_isspace s) = split_ws_acc cur s"
  by (induction s) auto

lemma split_ws_acc_trailing:
  "list_all py_isspace w \<Longrightarrow> split_ws_acc cur (a @ w) = split_ws_acc cur a"
proof (induction a arbitrary: cur)
  case Nil
  then show ?case
    by (induction w arbitrary: cur) auto
next
  case (Cons c a)
  then show ?case by simp
qed

lemma split_ws_strip: "split_ws (strip t) = split_ws t"
proof -
  let ?s = "dropWhile py_isspace t"
  have "?s = rev (dropWhile py_isspace (rev ?s)) @ rev (takeWhile py_isspace (rev ?s))"
    by (metis rev_append rev_rev_ident takeWhile_dropWhile_id)
  moreover have "list_all py_isspace (rev (takeWhile py_isspace (rev ?s)))"
    by (auto simp: list_all_iff dest: set_takeWhileD)
  ultimately have "split_ws_acc [] ?s = split_ws_acc [] (rev (dropWhile py_isspace (rev ?s)))"
    using split_ws_acc_trailing by metis
  then show ?thesis
    by (simp add: split_ws_def strip_def split_ws_acc_leading)
qed

lemma parse_parts_malformed:
  assumes "part \<in> set parts"
    and "2 \<le> length (split_on CHR '','' part)"
    and "float_of_str R (split_on CHR '','' part ! 0) = None \<or>
         float_of_str R (split_on CHR '','' part ! 1) = None"
  shows "parse_parts R parts = Inl ValueError"
  using assms(1)
proof (induction parts)
  case Nil
  then show ?case by simp
next
  case (Cons p parts)
  show ?case
  proof (cases "p = part")
    case True
    with assms(2,3) show ?thesis
      by (auto simp: Let_def split: option.splits)
  next
    case False
    with Cons have "parse_parts R parts = Inl ValueError"
      by simp
    then show ?thesis
      by (simp add: Let_def split: option.splits)
  qed
qed

lemma parse_inner_rings_malformed:
  assumes "parse_coordinates R (Some t) = Inl e" and "t \<noteq> []"
    and "Element (Some t) \<in> set inners"
  shows "\<exists>e'. parse_inner_rings R inners = Inl e'"
  using assms(3)
proof (induction inners)
  case Nil
  then show ?case by simp
next
  case (Cons el inners)
  show ?case
  proof (cases "el = Element (Some t)")
    case True
    with assms(1,2) show ?thesis
      by simp
  next
    case False
    with Cons obtain e' where "parse_inner_rings R inners = Inl e'"
      by auto
    then show ?thesis
      by (simp split: sum.splits)
  qed
qed

lemma process_placemark_extract_error:
  "polygon pm = Some pg \<Longrightarrow> extract_polygon_coords R pg = Inl e \<Longrightarrow>
     \<exists>e'. process_placemark R pm st = Inl e'"
  by (simp add: process_placemark_def split: sum.splits)

lemma collect_results_error:
  "pm \<in> set pms \<Longrightarrow> (\<And>st. \<exists>e. process_placemark R pm st = Inl e) \<Longrightarrow>
     \<exists>e. collect_results R pms st = Inl e"
proof (induction pms arbitrary: st)
  case Nil
  then show ?case by simp
next
  case (Cons p pms)
  show ?case
  proof (cases "process_placemark R p st")
    case (Inl e)
    then show ?thesis by simp
  next
    case (Inr st')
    with Cons.prems(2) have "p \<noteq> pm"
      by (metis Inl_Inr_False)
    with Cons.prems(1) have "pm \<in> set pms" by simp
    from Cons.IH [OF this Cons.prems(2)] Inr show ?thesis
      by simp
  qed
qed

text \<open>
  C6. When a whitespace-separated token of a coordinate text has at least two
  comma-separated components and \<open>float\<close> rejects one of the first two,
  \<open>parse_coordinates\<close> raises \<open>ValueError\<close> for the whole text, and every run over
  a document in which a placemark's polygon has this text as its exterior ring, or as
  an interior ring next to an exterior ring, ends with an exception.
\<close>

theorem malformed_coordinate_is_fatal:
  assumes "part \<in> set (split_ws coord_text)"
    and "2 \<le> length (split_on CHR '','' part)"
    and "float_of_str R (split_on CHR '','' part ! 0) = None \<or>
         float_of_str R (split_on CHR '','' part ! 1) = None"
  shows "parse_coordinates R (Some coord_text) = Inl ValueError \<and>
     (\<forall>pms pm pg. pm \<in> set pms \<and> polygon pm = Some pg \<and>
        (outer_coordinates pg = Some (Element (Some coord_text)) \<or>
         outer_coordinates pg \<noteq> None \<and>
           Element (Some coord_text) \<in> set (inner_coordinates pg)) \<longrightarrow>
        (\<exists>e. main R pms = Inl e))"
proof (intro conjI allI impI)
  from assms(1) have p: "part \<in> set (split_ws (strip coord_text))"
    by (simp add: split_ws_strip)
  show c: "parse_coordinates R (Some coord_text) = Inl ValueError"
    by (simp add: parse_coordinates_def parse_parts_malformed [OF p assms(2,3)])
  fix pms :: "placemark list" and pm :: placemark and pg :: polygon_el
  assume h: "pm \<in> set pms \<and> polygon pm = Some pg \<and>
        (outer_coordinates pg = Some (Element (Some coord_text)) \<or>
         outer_coordinates pg \<noteq> None \<and>
           Element (Some coord_text) \<in> set (inner_coordinates pg))"
  from assms(1) have ne: "coord_text \<noteq> []"
    by (auto simp: split_ws_def)
  have "\<exists>e. extract_polygon_coords R pg = Inl e"
  proof (cases "outer_coordinates pg = Some (Element (Some coord_text))")
    case True
    with c show ?thesis
      by (simp add: extract_polygon_coords_def)
  next
    case False
    with h obtain outer_ring where o: "outer_coordinates pg = Some outer_ring"
      and i: "Element (Some coord_text) \<in> set (inner_coordinates pg)"
      by auto
    from parse_inner_rings_malformed [OF c ne i] o show ?thesis
      by (auto simp: extract_polygon_coords_def split: sum.splits)
  qed
  then obtain e where "extract_polygon_coords R pg = Inl e"
    by blast
  with h have "\<And>st. \<exists>e'. process_placemark R pm st = Inl e'"
    by (blast intro: process_placemark_extract_error)
  with h have "\<exists>e. collect_results R pms initial_state = Inl e"
    by (blast intro: collect_results_error)
  then show "\<exists>e. main R pms = Inl e"
    by (auto simp: main_def)
qed

theorem malformed_coordinate_is_fatal_witness:
  "parse_coordinates exact_runtime (Some ''0,0 1,x 2,2'') = Inl ValueError \<and>
   (\<exists>e. main exact_runtime
           [point_placemark, labelled ''P'' ''Area: 5 acres.'' (ring_of_text ''0,0 1,x 2,2''),
            labelled ''Q'' ''Area: 5 acres.'' unit_square] = Inl e)"
proof -
  let ?pm = "labelled ''P'' ''Area: 5 acres.'' (ring_of_text ''0,0 1,x 2,2'')"
  let ?pms = "[point_placemark, ?pm, labelled ''Q'' ''Area: 5 acres.'' unit_square]"
  have a: "''1,x'' \<in> set (split_ws ''0,0 1,x 2,2'')"
    by code_simp
  have b: "2 \<le> length (split_on CHR '','' ''1,x'')"
    by code_simp
  have c: "float_of_str exact_runtime (split_on CHR '','' ''1,x'' ! 1) = None"
    by code_simp
  have d: "?pm \<in> set ?pms \<and> polygon ?pm = Some (ring_of_text ''0,0 1,x 2,2'') \<and>
      (outer_coordinates (ring_of_text ''0,0 1,x 2,2'') = Some (Element (Some ''0,0 1,x 2,2'')) \<or>
       outer_coordinates (ring_of_text ''0,0 1,x 2,2'') \<noteq> None \<and>
         Element (Some ''0,0 1,x 2,2'') \<in> set (inner_coordinates (ring_of_text ''0,0 1,x 2,2'')))"
    by (simp add: labelled_def ring_of_text_def)
  note t = malformed_coordinate_is_fatal [OF a b disjI2 [OF c]]
  from t [THEN conjunct1] t [THEN conjunct2, rule_format, OF d] show ?thesis
    by (rule conjI)
qed

end
